theory Spec2Isabelle
  imports Main "HOL-Library.Code_Target_Nat"
begin

section \<open>Python values used by the module\<close>

text \<open>
  A Python \<^verbatim>\<open>str\<close> is a sequence of code points (numbers below \<open>0x110000\<close>,
  surrogates included); \<open>str\<close> turns an ASCII literal into such a sequence.
\<close>

type_synonym pystr = "nat list"

definition str :: "string \<Rightarrow> pystr" where
  "str s = map of_char s"

text \<open>
  \<^verbatim>\<open>str(i)\<close> for an int, as the f-string \<^verbatim>\<open>f"-{postfix}"\<close> uses it: decimal digits, with
  a minus sign for a negative number.
\<close>

fun str_nat :: "nat \<Rightarrow> pystr" where
  "str_nat n = (if n < 10 then [48 + n] else str_nat (n div 10) @ [48 + n mod 10])"

declare str_nat.simps [simp del]

definition str_int :: "int \<Rightarrow> pystr" where
  "str_int i = (if i < 0 then 45 # str_nat (nat (- i)) else str_nat (nat i))"

section \<open>The enumerations and the status resolver\<close>

datatype ChangeType = add | update | delete

datatype PullRequestState = pending | merged | rejected

text \<open>
  What \<^verbatim>\<open>from_pull_request\<close> reads of a remote pull request: its raw state and its
  merge timestamp (\<open>None\<close> is Python's \<^verbatim>\<open>None\<close>), and what the lister reads besides. A
  timestamp is a number: the module only passes it on.
\<close>

record pull_request =
  pr_state :: pystr
  merged_at :: "nat option"
  body :: "pystr option"
  html_url :: pystr
  pr_created_at :: nat

definition from_pull_request :: "'a pull_request_scheme \<Rightarrow> PullRequestState" where
  "from_pull_request pr =
     (if pr_state pr = str ''open'' then pending
      else if merged_at pr \<noteq> None then merged
      else rejected)"

section \<open>The hosting platform\<close>

text \<open>
  The repository object of PyGithub is outside the module. It is a parameter of the model:
  a record of operations over a world \<open>'w\<close> (the state of the remote side). Every operation
  returns its answer and the next world, so that the remote side may change at any call, also
  at one that fails. An operation fails with a \<open>platform_error\<close>:
  \<^verbatim>\<open>github.GithubException\<close> with its HTTP status, its subclass
  \<^verbatim>\<open>github.UnknownObjectException\<close> (status 404), or an exception of another class
  (a network failure, say), which no \<^verbatim>\<open>except github.GithubException\<close> catches.
\<close>

datatype platform_error = GithubException nat | UnknownObjectException | OtherException pystr

fun is_GithubException :: "platform_error \<Rightarrow> bool" where
  "is_GithubException (GithubException st) = True"
| "is_GithubException UnknownObjectException = True"
| "is_GithubException (OtherException m) = False"

fun status :: "platform_error \<Rightarrow> nat" where
  "status (GithubException st) = st"
| "status UnknownObjectException = 404"
| "status (OtherException m) = 0"

text \<open>
  The handler of the allocator reads \<open>status\<close> of a \<^verbatim>\<open>GithubException\<close> only; an exception
  of another class does not reach it.

  The exceptions a function of the module can end with:
\<close>

datatype error = Platform platform_error | DeserializeError | UnicodeEncodeError

type_synonym pybytes = "nat list"

record tree_elem =
  elem_path :: pystr
  elem_sha :: pystr

record 'w platform =
  get_repo :: "'w \<Rightarrow> (platform_error + unit) \<times> 'w"
  get_branch :: "'w \<Rightarrow> pystr \<Rightarrow> (platform_error + pystr) \<times> 'w"
  create_git_ref :: "'w \<Rightarrow> pystr \<Rightarrow> pystr \<Rightarrow> (platform_error + unit) \<times> 'w"
  get_git_tree :: "'w \<Rightarrow> pystr \<Rightarrow> (platform_error + tree_elem list) \<times> 'w"
  update_file ::
    "'w \<Rightarrow> pystr \<Rightarrow> pystr \<Rightarrow> pybytes \<Rightarrow> pystr \<Rightarrow> pystr \<Rightarrow> (platform_error + unit) \<times> 'w"
  delete_file :: "'w \<Rightarrow> pystr \<Rightarrow> pystr \<Rightarrow> pystr \<Rightarrow> pystr \<Rightarrow> (platform_error + unit) \<times> 'w"
  create_pull ::
    "'w \<Rightarrow> pystr \<Rightarrow> pystr \<Rightarrow> pystr \<Rightarrow> pystr \<Rightarrow> bool \<Rightarrow> (platform_error + nat) \<times> 'w"
  set_labels :: "'w \<Rightarrow> nat \<Rightarrow> pystr list \<Rightarrow> (platform_error + unit) \<times> 'w"
  get_pulls :: "'w \<Rightarrow> pystr \<Rightarrow> (pull_request list \<times> platform_error option) \<times> 'w"

text \<open>
  \<open>get_branch\<close> answers with \<^verbatim>\<open>branch.commit.sha\<close>, \<open>create_pull\<close> with the number of the
  new pull request. \<open>get_pulls\<close> is PyGithub's lazy paginated list: the pull requests it
  delivers, and the error that ends the iteration early, if any.

  A session is the world together with what the module has done so far: the platform calls
  in order, each with its arguments and its answer, and the messages given to the logger.
\<close>

datatype call =
    GetRepo
  | GetBranch pystr
  | CreateGitRef pystr pystr
  | GetGitTree pystr
  | UpdateFile pystr pystr pybytes pystr pystr
  | DeleteFile pystr pystr pystr pystr
  | CreatePull pystr pystr pystr pystr bool
  | SetLabels nat "pystr list"
  | GetPulls pystr

datatype reply = Done | Sha pystr | Tree "tree_elem list" | Pull nat | Pulls "pull_request list"

datatype event = Called call "platform_error + reply"

record 'w session =
  world :: 'w
  trace :: "event list"
  logged :: "pystr list"

definition logger_info :: "pystr \<Rightarrow> 'w session \<Rightarrow> 'w session" where
  "logger_info msg s = s\<lparr>logged := logged s @ [msg]\<rparr>"

definition answered ::
  "call \<Rightarrow> ('a \<Rightarrow> reply) \<Rightarrow> (platform_error + 'a) \<times> 'w \<Rightarrow> 'w session
     \<Rightarrow> (platform_error + 'a) \<times> 'w session" where
  "answered c f rw s =
     (fst rw, s\<lparr>world := snd rw, trace := trace s @ [Called c (map_sum id f (fst rw))]\<rparr>)"

definition call_get_repo :: "'w platform \<Rightarrow> 'w session \<Rightarrow> (platform_error + unit) \<times> 'w session" where
  "call_get_repo P s = answered GetRepo (\<lambda>u. Done) (get_repo P (world s)) s"

definition call_get_branch ::
  "'w platform \<Rightarrow> pystr \<Rightarrow> 'w session \<Rightarrow> (platform_error + pystr) \<times> 'w session" where
  "call_get_branch P b s = answered (GetBranch b) Sha (get_branch P (world s) b) s"

definition call_create_git_ref ::
  "'w platform \<Rightarrow> pystr \<Rightarrow> pystr \<Rightarrow> 'w session \<Rightarrow> (platform_error + unit) \<times> 'w session" where
  "call_create_git_ref P ref sh s =
     answered (CreateGitRef ref sh) (\<lambda>u. Done) (create_git_ref P (world s) ref sh) s"

definition call_get_git_tree ::
  "'w platform \<Rightarrow> pystr \<Rightarrow> 'w session \<Rightarrow> (platform_error + tree_elem list) \<times> 'w session" where
  "call_get_git_tree P ref s = answered (GetGitTree ref) Tree (get_git_tree P (world s) ref) s"

definition call_update_file ::
  "'w platform \<Rightarrow> pystr \<Rightarrow> pystr \<Rightarrow> pybytes \<Rightarrow> pystr \<Rightarrow> pystr \<Rightarrow> 'w session
     \<Rightarrow> (platform_error + unit) \<times> 'w session" where
  "call_update_file P pth msg content sh branch s =
     answered (UpdateFile pth msg content sh branch) (\<lambda>u. Done)
       (update_file P (world s) pth msg content sh branch) s"

definition call_delete_file ::
  "'w platform \<Rightarrow> pystr \<Rightarrow> pystr \<Rightarrow> pystr \<Rightarrow> pystr \<Rightarrow> 'w session
     \<Rightarrow> (platform_error + unit) \<times> 'w session" where
  "call_delete_file P pth msg sh branch s =
     answered (DeleteFile pth msg sh branch) (\<lambda>u. Done)
       (delete_file P (world s) pth msg sh branch) s"

definition call_create_pull ::
  "'w platform \<Rightarrow> pystr \<Rightarrow> pystr \<Rightarrow> pystr \<Rightarrow> pystr \<Rightarrow> bool \<Rightarrow> 'w session
     \<Rightarrow> (platform_error + nat) \<times> 'w session" where
  "call_create_pull P title pr_body head base mcm s =
     answered (CreatePull title pr_body head base mcm) Pull
       (create_pull P (world s) title pr_body head base mcm) s"

definition call_set_labels ::
  "'w platform \<Rightarrow> nat \<Rightarrow> pystr list \<Rightarrow> 'w session \<Rightarrow> (platform_error + unit) \<times> 'w session" where
  "call_set_labels P pr labels s =
     answered (SetLabels pr labels) (\<lambda>u. Done) (set_labels P (world s) pr labels) s"

section \<open>The branch allocator\<close>

text \<open>
  \<^verbatim>\<open>_create_branch\<close>. The name of the main branch (\<^verbatim>\<open>config.GITHUB_MAIN_BRANCH\<close>) is a
  parameter. The recursion of the source ends because a retry happens only while
  \<^verbatim>\<open>postfix\<close> is at most 15.
\<close>

definition branch_name_of :: "pystr \<Rightarrow> int \<Rightarrow> pystr" where
  "branch_name_of branch_base_name postfix =
     branch_base_name @ (if postfix = 1 then [] else str ''-'' @ str_int postfix)"

function create_branch ::
  "'w platform \<Rightarrow> pystr \<Rightarrow> pystr \<Rightarrow> int \<Rightarrow> 'w session \<Rightarrow> (error + pystr) \<times> 'w session" where
  "create_branch P main branch_base_name postfix s =
     (case call_get_branch P main s of
        (Inl e, s1) \<Rightarrow> (Inl (Platform e), s1)
      | (Inr tip, s1) \<Rightarrow>
          (let branch_name = branch_name_of branch_base_name postfix;
               s2 = logger_info (str ''Creating branch with '' @ branch_name) s1
           in case call_create_git_ref P (str ''refs/heads/'' @ branch_name) tip s2 of
                (Inr u, s3) \<Rightarrow> (Inr branch_name, s3)
              | (Inl e, s3) \<Rightarrow>
                  if is_GithubException e then
                    if status e = 422 then
                      if postfix > 15 then (Inl (Platform e), s3)
                      else create_branch P main branch_base_name (postfix + 1) s3
                    else (Inl (Platform e), s3)
                  else (Inl (Platform e), s3)))"
  by pat_completeness auto
termination
  by (relation "measure (\<lambda>(P, main, b, postfix, s). nat (16 - postfix))") auto

declare create_branch.simps [simp del]


text \<open>
  What a run adds to the trace, and three readings of it: the refs the run asked the platform
  to create, the errors of the creation attempts that failed, and (as one predicate) the
  failure the handler of the source retries on: a \<^verbatim>\<open>GithubException\<close> with status 422.
\<close>

definition new_events :: "'w session \<Rightarrow> 'w session \<Rightarrow> event list" where
  "new_events s s' = drop (length (trace s)) (trace s')"

fun requested_refs :: "event list \<Rightarrow> pystr list" where
  "requested_refs [] = []"
| "requested_refs (Called (CreateGitRef ref sh) a # evs) = ref # requested_refs evs"
| "requested_refs (ev # evs) = requested_refs evs"

fun creation_failures :: "event list \<Rightarrow> platform_error list" where
  "creation_failures [] = []"
| "creation_failures (Called (CreateGitRef ref sh) (Inl e) # evs) = e # creation_failures evs"
| "creation_failures (ev # evs) = creation_failures evs"

definition name_taken :: "platform_error \<Rightarrow> bool" where
  "name_taken e = (is_GithubException e \<and> status e = 422)"

text \<open>
  The shape of the events one call of \<open>create_branch\<close> adds, with its result: attempts
  that collide, then a last attempt that cannot fetch the tip, creates the branch, or fails
  for good. It is an auxiliary notion for the proofs below.
\<close>

inductive allocation :: "pystr \<Rightarrow> pystr \<Rightarrow> int \<Rightarrow> event list \<Rightarrow> error + pystr \<Rightarrow> bool"
  for main :: pystr and base :: pystr where
  tip_failed:
    "allocation main base p [Called (GetBranch main) (Inl e)] (Inl (Platform e))"
| created:
    "allocation main base p
       [Called (GetBranch main) (Inr (Sha tip)),
        Called (CreateGitRef (str ''refs/heads/'' @ branch_name_of base p) tip) (Inr Done)]
       (Inr (branch_name_of base p))"
| gave_up:
    "\<not> (is_GithubException e \<and> status e = 422 \<and> p \<le> 15) \<Longrightarrow>
     allocation main base p
       [Called (GetBranch main) (Inr (Sha tip)),
        Called (CreateGitRef (str ''refs/heads/'' @ branch_name_of base p) tip) (Inl e)]
       (Inl (Platform e))"
| retried:
    "is_GithubException e \<Longrightarrow> status e = 422 \<Longrightarrow> p \<le> 15 \<Longrightarrow>
     allocation main base (p + 1) evs r \<Longrightarrow>
     allocation main base p
       (Called (GetBranch main) (Inr (Sha tip)) #
        Called (CreateGitRef (str ''refs/heads/'' @ branch_name_of base p) tip) (Inl e) # evs) r"

section \<open>Two platforms for the examples\<close>

text \<open>
  A scripted platform answers the calls from a list, one answer per call, whatever the call
  is; an answer of the wrong kind, or none left, is a failure outside
  \<^verbatim>\<open>GithubException\<close>.
\<close>

type_synonym script = "(platform_error + reply) list"

definition next_answer :: "script \<Rightarrow> (platform_error + reply) \<times> script" where
  "next_answer w =
     (case w of [] \<Rightarrow> (Inl (OtherException (str ''no answer'')), []) | a # w' \<Rightarrow> (a, w'))"

definition scripted_unit :: "script \<Rightarrow> (platform_error + unit) \<times> script" where
  "scripted_unit w =
     (case next_answer w of
        (Inl e, w') \<Rightarrow> (Inl e, w')
      | (Inr Done, w') \<Rightarrow> (Inr (), w')
      | (Inr a, w') \<Rightarrow> (Inl (OtherException (str ''wrong answer'')), w'))"

definition scripted :: "script platform" where
  "scripted =
     \<lparr>get_repo = scripted_unit,
      get_branch = (\<lambda>w b. case next_answer w of
          (Inl e, w') \<Rightarrow> (Inl e, w')
        | (Inr (Sha t), w') \<Rightarrow> (Inr t, w')
        | (Inr a, w') \<Rightarrow> (Inl (OtherException (str ''wrong answer'')), w')),
      create_git_ref = (\<lambda>w ref sh. scripted_unit w),
      get_git_tree = (\<lambda>w ref. case next_answer w of
          (Inl e, w') \<Rightarrow> (Inl e, w')
        | (Inr (Tree t), w') \<Rightarrow> (Inr t, w')
        | (Inr a, w') \<Rightarrow> (Inl (OtherException (str ''wrong answer'')), w')),
      update_file = (\<lambda>w pth msg content sh branch. scripted_unit w),
      delete_file = (\<lambda>w pth msg sh branch. scripted_unit w),
      create_pull = (\<lambda>w title pr_body head base mcm. case next_answer w of
          (Inl e, w') \<Rightarrow> (Inl e, w')
        | (Inr (Pull n), w') \<Rightarrow> (Inr n, w')
        | (Inr a, w') \<Rightarrow> (Inl (OtherException (str ''wrong answer'')), w')),
      set_labels = (\<lambda>w pr labels. scripted_unit w),
      get_pulls = (\<lambda>w st. case next_answer w of
          (Inl e, w') \<Rightarrow> (([], Some e), w')
        | (Inr (Pulls prs), w') \<Rightarrow> ((prs, None), w')
        | (Inr a, w') \<Rightarrow> (([], Some (OtherException (str ''wrong answer''))), w'))\<rparr>"

text \<open>
  A small hosting platform with a state, after the operations the spec lists in its section
  on the external interfaces: the branches with the commit each points at, the directory
  listings of the main branch by tree ref (as the module sends it), and the pull requests.
  Creating a ref whose branch exists fails with status 422 (name taken); a tree ref or a
  branch that does not exist is \<^verbatim>\<open>UnknownObjectException\<close> (not found); every other request
  succeeds.
\<close>

record hub =
  hub_branches :: "(pystr \<times> pystr) list"
  hub_trees :: "(pystr \<times> tree_elem list) list"
  hub_pulls :: "pull_request list"

definition hub_platform :: "hub platform" where
  "hub_platform =
     \<lparr>get_repo = (\<lambda>w. (Inr (), w)),
      get_branch = (\<lambda>w b. case map_of (hub_branches w) b of
          None \<Rightarrow> (Inl UnknownObjectException, w)
        | Some sh \<Rightarrow> (Inr sh, w)),
      create_git_ref = (\<lambda>w ref sh.
          if drop 11 ref \<in> fst ` set (hub_branches w) then (Inl (GithubException 422), w)
          else (Inr (), w\<lparr>hub_branches := hub_branches w @ [(drop 11 ref, sh)]\<rparr>)),
      get_git_tree = (\<lambda>w ref. case map_of (hub_trees w) ref of
          None \<Rightarrow> (Inl UnknownObjectException, w)
        | Some t \<Rightarrow> (Inr t, w)),
      update_file = (\<lambda>w pth msg content sh branch. (Inr (), w)),
      delete_file = (\<lambda>w pth msg sh branch. (Inr (), w)),
      create_pull = (\<lambda>w title pr_body head base mcm.
          (Inr (length (hub_pulls w) + 1),
           w\<lparr>hub_pulls := hub_pulls w @
             [\<lparr>pr_state = str ''open'', merged_at = None, body = Some pr_body,
               html_url = str ''https://hub/pull/'' @ str_nat (length (hub_pulls w) + 1),
               pr_created_at = 0\<rparr>]\<rparr>)),
      set_labels = (\<lambda>w pr labels. (Inr (), w)),
      get_pulls = (\<lambda>w st. ((hub_pulls w, None), w))\<rparr>"

definition session_of :: "'w \<Rightarrow> 'w session" where
  "session_of w = \<lparr>world = w, trace = [], logged = []\<rparr>"

text \<open>The worlds of the examples: two branches taken, all sixteen names taken, and a main
  branch whose tip moves between two attempts.\<close>

definition hub0 :: hub where
  "hub0 = \<lparr>hub_branches = [(str ''main'', str ''c0''), (str ''add-item'', str ''c0''), (str ''add-item-2'', str ''c0'')],
            hub_trees = [], hub_pulls = []\<rparr>"

definition hub_full :: hub where
  "hub_full = \<lparr>hub_branches = (str ''main'', str ''c0'') # map (\<lambda>k. (branch_name_of (str ''add-item'') k, str ''c0'')) [1..16],
            hub_trees = [], hub_pulls = []\<rparr>"

definition advancing :: script where
  "advancing = [Inr (Sha (str ''c1'')), Inl (GithubException 422), Inr (Sha (str ''c2'')), Inr Done]"

section \<open>Library functions the content locator uses\<close>

text \<open>
  \<^verbatim>\<open>pathlib.PurePath\<close> in its POSIX flavour, for one argument: the root is empty, one slash,
  or two slashes (exactly two leading slashes are kept); the rest is split at the slashes and
  the empty segments and the segments \<^verbatim>\<open>.\<close> are dropped.
\<close>

fun split_on :: "nat \<Rightarrow> pystr \<Rightarrow> pystr list" where
  "split_on sep [] = [[]]"
| "split_on sep (c # cs) =
     (if c = sep then [] # split_on sep cs
      else (case split_on sep cs of [] \<Rightarrow> [[c]] | x # xs \<Rightarrow> (c # x) # xs))"

fun join_with :: "pystr \<Rightarrow> pystr list \<Rightarrow> pystr" where
  "join_with sep [] = []"
| "join_with sep [x] = x"
| "join_with sep (x # y # ys) = x @ sep @ join_with sep (y # ys)"

record PurePath =
  path_root :: pystr
  path_segments :: "pystr list"

definition splitroot :: "pystr \<Rightarrow> pystr \<times> pystr" where
  "splitroot part =
     (if part \<noteq> [] \<and> hd part = 47 then
        (let stripped_part = dropWhile (\<lambda>c. c = 47) part
         in if length part - length stripped_part = 2 then (str ''//'', stripped_part)
            else (str ''/'', stripped_part))
      else ([], part))"

definition pure_path_of :: "pystr \<Rightarrow> PurePath" where
  "pure_path_of p =
     (case splitroot p of
        (rt, rel) \<Rightarrow>
          \<lparr>path_root = rt,
           path_segments = filter (\<lambda>x. x \<noteq> [] \<and> x \<noteq> str ''.'') (split_on 47 rel)\<rparr>)"

definition path_parent :: "PurePath \<Rightarrow> PurePath" where
  "path_parent p = (if path_segments p = [] then p else p\<lparr>path_segments := butlast (path_segments p)\<rparr>)"

definition path_name :: "PurePath \<Rightarrow> pystr" where
  "path_name p = (if path_segments p = [] then [] else last (path_segments p))"

definition path_str :: "PurePath \<Rightarrow> pystr" where
  "path_str p =
     (if path_root p \<noteq> [] then path_root p @ join_with (str ''/'') (path_segments p)
      else if path_segments p = [] then str ''.''
      else join_with (str ''/'') (path_segments p))"

text \<open>
  \<^verbatim>\<open>urllib.parse.urlencode({"": v})[1:]\<close> is \<^verbatim>\<open>quote_plus(v)\<close>: the UTF-8 bytes of \<open>v\<close>,
  each kept when it is a letter, a digit or one of \<^verbatim>\<open>_.-~\<close>, a space turned into \<^verbatim>\<open>+\<close>,
  any other byte written as \<^verbatim>\<open>%XX\<close> with upper-case hex digits. The strict UTF-8 codec
  refuses a surrogate code point: the call raises \<^verbatim>\<open>UnicodeEncodeError\<close> (\<open>None\<close> here).
\<close>

definition utf8_encode_char :: "nat \<Rightarrow> nat list option" where
  "utf8_encode_char c =
     (if c < 0x80 then Some [c]
      else if c < 0x800 then Some [0xC0 + c div 64, 0x80 + c mod 64]
      else if 0xD800 \<le> c \<and> c \<le> 0xDFFF then None
      else if c < 0x10000 then Some [0xE0 + c div 4096, 0x80 + (c div 64) mod 64, 0x80 + c mod 64]
      else if c < 0x110000 then
        Some [0xF0 + c div 262144, 0x80 + (c div 4096) mod 64, 0x80 + (c div 64) mod 64,
              0x80 + c mod 64]
      else None)"

fun utf8_encode :: "pystr \<Rightarrow> nat list option" where
  "utf8_encode [] = Some []"
| "utf8_encode (c # cs) =
     (case utf8_encode_char c of
        None \<Rightarrow> None
      | Some bs \<Rightarrow> (case utf8_encode cs of None \<Rightarrow> None | Some r \<Rightarrow> Some (bs @ r)))"

definition always_safe :: "nat \<Rightarrow> bool" where
  "always_safe b =
     ((65 \<le> b \<and> b \<le> 90) \<or> (97 \<le> b \<and> b \<le> 122) \<or> (48 \<le> b \<and> b \<le> 57)
      \<or> b = 95 \<or> b = 46 \<or> b = 45 \<or> b = 126)"

definition upper_hex_digit :: "nat \<Rightarrow> nat" where
  "upper_hex_digit d = (if d < 10 then 48 + d else 55 + d)"

definition quote_byte :: "nat \<Rightarrow> pystr" where
  "quote_byte b =
     (if b = 32 then str ''+''
      else if always_safe b then [b]
      else [37, upper_hex_digit (b div 16), upper_hex_digit (b mod 16)])"

definition quote_plus :: "pystr \<Rightarrow> pystr option" where
  "quote_plus v = map_option (\<lambda>bs. concat (map quote_byte bs)) (utf8_encode v)"

section \<open>The content locator\<close>

text \<open>
  \<^verbatim>\<open>_previous_version_sha\<close>: the tree of the parent directory on the main branch is asked
  for; \<^verbatim>\<open>UnknownObjectException\<close> gives the empty token, any other failure leaves the
  function as it is; in a listing, \<^verbatim>\<open>next(..., "")\<close> takes the sha of the first element
  whose path is the name of the path, and the empty token when there is none.
\<close>

definition next_sha :: "tree_elem list \<Rightarrow> pystr \<Rightarrow> pystr" where
  "next_sha tree nm =
     (case filter (\<lambda>tree_elem. elem_path tree_elem = nm) tree of
        [] \<Rightarrow> []
      | tree_elem # rest \<Rightarrow> elem_sha tree_elem)"

definition previous_version_sha ::
  "'w platform \<Rightarrow> pystr \<Rightarrow> pystr \<Rightarrow> 'w session \<Rightarrow> (error + pystr) \<times> 'w session" where
  "previous_version_sha P main pth s =
     (let pure_path = pure_path_of pth in
      case quote_plus (main @ str '':'' @ path_str (path_parent pure_path)) of
        None \<Rightarrow> (Inl UnicodeEncodeError, s)
      | Some encoded_tree_ref \<Rightarrow>
          (case call_get_git_tree P encoded_tree_ref s of
             (Inl UnknownObjectException, s1) \<Rightarrow> (Inr [], s1)
           | (Inl e, s1) \<Rightarrow> (Inl (Platform e), s1)
           | (Inr parent_tree, s1) \<Rightarrow> (Inr (next_sha parent_tree (path_name pure_path)), s1)))"

section \<open>The submission orchestrator\<close>

text \<open>
  \<^verbatim>\<open>create_pull_request\<close>. \<open>and_then\<close> is the sequencing of Python statements: an exception
  ends the function, with the session as it is at that point. A platform call lifts its
  error into \<open>error\<close>. The conditions are Python's truth values: a tuple of two is true, a
  string is true when it is not empty, a tuple of labels when it has an element.
\<close>

definition and_then ::
  "(error + 'a) \<times> 'w session \<Rightarrow> ('a \<Rightarrow> 'w session \<Rightarrow> (error + 'b) \<times> 'w session)
     \<Rightarrow> (error + 'b) \<times> 'w session" where
  "and_then m f = (case m of (Inl e, s) \<Rightarrow> (Inl e, s) | (Inr x, s) \<Rightarrow> f x s)"

definition raising :: "(platform_error + 'a) \<times> 'w session \<Rightarrow> (error + 'a) \<times> 'w session" where
  "raising m = (case m of (Inl e, s) \<Rightarrow> (Inl (Platform e), s) | (Inr x, s) \<Rightarrow> (Inr x, s))"

definition str_or_None :: "pystr option \<Rightarrow> pystr" where
  "str_or_None x = (case x of None \<Rightarrow> str ''None'' | Some v \<Rightarrow> v)"

definition create_pull_request ::
  "'w platform \<Rightarrow> pystr \<Rightarrow> pystr \<Rightarrow> pystr \<Rightarrow> pystr \<Rightarrow> (pystr \<times> pybytes) option
     \<Rightarrow> pystr option \<Rightarrow> pystr list \<Rightarrow> 'w session \<Rightarrow> (error + unit) \<times> 'w session" where
  "create_pull_request P main branch_base_name pr_title pr_body file_to_create file_to_delete
      labels s =
     (let s = logger_info (str ''Creating pull request'') s;
          s = logger_info (str ''File to create: '' @ str_or_None (map_option fst file_to_create)) s;
          s = logger_info (str ''File to delete: '' @ str_or_None file_to_delete) s
      in
      and_then (raising (call_get_repo P s)) (\<lambda>repo s.
      and_then (create_branch P main branch_base_name 1 s) (\<lambda>branch_name s.
      and_then
        (case file_to_create of
           Some (pth, content) \<Rightarrow>
             and_then (previous_version_sha P main pth s) (\<lambda>sh s.
               raising (call_update_file P pth
                 (str ''Add '' @ pth @ str '' for pull request submission'') content sh
                 branch_name s))
         | None \<Rightarrow> (Inr (), s)) (\<lambda>u s.
      and_then
        (if file_to_delete \<noteq> None \<and> file_to_delete \<noteq> Some [] then
           and_then (previous_version_sha P main (the file_to_delete) s) (\<lambda>sh s.
             raising (call_delete_file P (the file_to_delete)
               (str ''Delete '' @ the file_to_delete @ str '' for pull request submission'') sh
               branch_name s))
         else (Inr (), s)) (\<lambda>u s.
      and_then (raising (call_create_pull P pr_title pr_body branch_name main True s)) (\<lambda>pr s.
      and_then
        (if labels \<noteq> [] then raising (call_set_labels P pr labels s) else (Inr (), s)) (\<lambda>u s.
      (Inr (), logger_info (str ''Pull request successfully created'') s))))))))"

subsection \<open>Readings of a trace\<close>

text \<open>The calls of each kind in a trace, with their arguments, for the statements on the orchestrator.\<close>

fun created_branches :: "event list \<Rightarrow> pystr list" where
  "created_branches [] = []"
| "created_branches (Called (CreateGitRef ref sh) (Inr a) # evs) = ref # created_branches evs"
| "created_branches (ev # evs) = created_branches evs"

fun file_writes :: "event list \<Rightarrow> (pystr \<times> pybytes \<times> pystr \<times> pystr) list" where
  "file_writes [] = []"
| "file_writes (Called (UpdateFile pth msg content sh branch) a # evs) =
     (pth, content, sh, branch) # file_writes evs"
| "file_writes (ev # evs) = file_writes evs"

fun file_deletes :: "event list \<Rightarrow> (pystr \<times> pystr \<times> pystr) list" where
  "file_deletes [] = []"
| "file_deletes (Called (DeleteFile pth msg sh branch) a # evs) = (pth, sh, branch) # file_deletes evs"
| "file_deletes (ev # evs) = file_deletes evs"

fun pulls_opened :: "event list \<Rightarrow> (pystr \<times> pystr \<times> pystr \<times> pystr) list" where
  "pulls_opened [] = []"
| "pulls_opened (Called (CreatePull title pr_body head base mcm) a # evs) =
     (title, pr_body, head, base) # pulls_opened evs"
| "pulls_opened (ev # evs) = pulls_opened evs"

fun label_calls :: "event list \<Rightarrow> (nat \<times> pystr list) list" where
  "label_calls [] = []"
| "label_calls (Called (SetLabels pr labels) a # evs) = (pr, labels) # label_calls evs"
| "label_calls (ev # evs) = label_calls evs"

text \<open>
  The token \<^verbatim>\<open>_previous_version_sha\<close> makes of the platform's answer to the tree request.
\<close>

definition token_of :: "platform_error + reply \<Rightarrow> pystr \<Rightarrow> pystr" where
  "token_of a pth =
     (case a of Inr (Tree t) \<Rightarrow> next_sha t (path_name (pure_path_of pth)) | _ \<Rightarrow> [])"

text \<open>
  The tree request of the locator for a path: the ref is the encoded parent directory on the
  main branch, and the answer is one the locator turns into a token.
\<close>

definition looked_up :: "pystr \<Rightarrow> pystr \<Rightarrow> pystr \<Rightarrow> platform_error + reply \<Rightarrow> bool" where
  "looked_up main pth ref a =
     (quote_plus (main @ str '':'' @ path_str (path_parent (pure_path_of pth))) = Some ref
      \<and> (a = Inl UnknownObjectException \<or> (\<exists>t. a = Inr (Tree t))))"

text \<open>The worlds of the examples for the locator and the orchestrator.\<close>

definition hub_main :: hub where
  "hub_main = \<lparr>hub_branches = [(str ''main'', str ''c0'')], hub_trees = [], hub_pulls = []\<rparr>"

definition hub_alice :: hub where
  "hub_alice =
     \<lparr>hub_branches = [(str ''main'', str ''c0'')],
      hub_trees = [(str ''main%3Aalice'',
                    [\<lparr>elem_path = str ''bar.json'', elem_sha = str ''77aa01''\<rparr>,
                     \<lparr>elem_path = str ''foo.json'', elem_sha = str ''3b18e5''\<rparr>])],
      hub_pulls = []\<rparr>"

section \<open>The json module\<close>

text \<open>
  The values \<^verbatim>\<open>json.loads\<close> returns: \<^verbatim>\<open>None\<close>, a bool, a number, a str, a list, or a dict
  with str keys (in insertion order). A number is kept as its literal: no function of the
  module computes with it. The exceptions of the two library calls in \<^verbatim>\<open>deserialize\<close> are
  \<^verbatim>\<open>json.JSONDecodeError\<close> and \<^verbatim>\<open>TypeError\<close>. The limits of the interpreter (the recursion
  depth, the length of an int literal) are outside the model.
\<close>

datatype json =
    JNull
  | JBool bool
  | JNumber pystr
  | JString pystr
  | JArray "json list"
  | JObject "(pystr \<times> json) list"

datatype py_exn = JSONDecodeError | TypeError

subsection \<open>Encoding a string\<close>

text \<open>
  \<^verbatim>\<open>json.dumps\<close> with its defaults (\<^verbatim>\<open>ensure_ascii=True\<close>): the quote and the backslash are
  escaped, the five control characters with a short escape take it, the other characters from
  the space to the tilde stand for themselves, and every other code point is written as
  \<^verbatim>\<open>\uXXXX\<close> with four lower-case hex digits, a code point from \<open>0x10000\<close> on as the two
  escapes of its surrogate pair.
\<close>

definition hex_digit :: "nat \<Rightarrow> nat" where
  "hex_digit d = (if d < 10 then 48 + d else 87 + d)"

definition u_escape :: "nat \<Rightarrow> pystr" where
  "u_escape n =
     [92, 117, hex_digit (n div 4096), hex_digit ((n div 256) mod 16),
      hex_digit ((n div 16) mod 16), hex_digit (n mod 16)]"

definition escape_char :: "nat \<Rightarrow> pystr" where
  "escape_char c =
     (if c = 34 then [92, 34]
      else if c = 92 then [92, 92]
      else if c = 10 then [92, 110]
      else if c = 13 then [92, 114]
      else if c = 9 then [92, 116]
      else if c = 8 then [92, 98]
      else if c = 12 then [92, 102]
      else if 32 \<le> c \<and> c \<le> 126 then [c]
      else if c < 0x10000 then u_escape c
      else u_escape (0xD800 + ((c - 0x10000) div 1024) mod 1024)
           @ u_escape (0xDC00 + (c - 0x10000) mod 1024))"

definition encode_basestring_ascii :: "pystr \<Rightarrow> pystr" where
  "encode_basestring_ascii s = [34] @ concat (map escape_char s) @ [34]"

subsection \<open>Decoding\<close>

text \<open>
  The scanner of a string body, after the opening quote (the accelerated scanner of CPython,
  strict mode): it returns the string and the text after the closing quote. A control
  character, an unknown escape, a \<^verbatim>\<open>\u\<close> without four hex digits and a missing closing quote
  are errors. A high surrogate escape that is followed by a low surrogate escape is joined
  with it into one code point.
\<close>

definition hex_val :: "nat \<Rightarrow> nat option" where
  "hex_val c =
     (if 48 \<le> c \<and> c \<le> 57 then Some (c - 48)
      else if 97 \<le> c \<and> c \<le> 102 then Some (c - 87)
      else if 65 \<le> c \<and> c \<le> 70 then Some (c - 55)
      else None)"

definition hex4 :: "pystr \<Rightarrow> nat option" where
  "hex4 ds =
     (case ds of
        [a, b, c, d] \<Rightarrow>
          (case (hex_val a, hex_val b, hex_val c, hex_val d) of
             (Some x, Some y, Some z, Some w) \<Rightarrow> Some (((x * 16 + y) * 16 + z) * 16 + w)
           | _ \<Rightarrow> None)
      | _ \<Rightarrow> None)"

definition backslash :: "nat \<Rightarrow> nat option" where
  "backslash e =
     (if e = 34 then Some 34
      else if e = 92 then Some 92
      else if e = 47 then Some 47
      else if e = 98 then Some 8
      else if e = 102 then Some 12
      else if e = 110 then Some 10
      else if e = 114 then Some 13
      else if e = 116 then Some 9
      else None)"

definition is_high_surrogate :: "nat \<Rightarrow> bool" where
  "is_high_surrogate c = (0xD800 \<le> c \<and> c \<le> 0xDBFF)"

definition is_low_surrogate :: "nat \<Rightarrow> bool" where
  "is_low_surrogate c = (0xDC00 \<le> c \<and> c \<le> 0xDFFF)"

definition join_surrogates :: "nat \<Rightarrow> nat \<Rightarrow> nat" where
  "join_surrogates hi lo = 0x10000 + ((hi - 0xD800) * 1024 + (lo - 0xDC00))"

definition scanned :: "nat \<Rightarrow> (pystr \<times> pystr) option \<Rightarrow> (pystr \<times> pystr) option" where
  "scanned c r = map_option (\<lambda>(s, rest). (c # s, rest)) r"

function scanstring :: "pystr \<Rightarrow> (pystr \<times> pystr) option" where
  "scanstring [] = None"
| "scanstring (c # cs) =
     (if c = 34 then Some ([], cs)
      else if c = 92 then
        (case cs of
           [] \<Rightarrow> None
         | e # cs' \<Rightarrow>
             if e \<noteq> 117 then
               (case backslash e of None \<Rightarrow> None | Some ch \<Rightarrow> scanned ch (scanstring cs'))
             else
               (case hex4 (take 4 cs') of
                  None \<Rightarrow> None
                | Some uni \<Rightarrow>
                    if is_high_surrogate uni \<and> take 2 (drop 4 cs') = [92, 117] then
                      (case hex4 (take 4 (drop 6 cs')) of
                         None \<Rightarrow> None
                       | Some uni2 \<Rightarrow>
                           if is_low_surrogate uni2
                           then scanned (join_surrogates uni uni2) (scanstring (drop 10 cs'))
                           else scanned uni (scanstring (drop 4 cs')))
                    else scanned uni (scanstring (drop 4 cs'))))
      else if c \<le> 31 then None
      else scanned c (scanstring cs))"
  by pat_completeness auto
termination
  by (relation "measure length") auto

text \<open>
  A number: an optional minus sign, \<^verbatim>\<open>0\<close> or a digit from 1 to 9 with more digits, then a
  fraction (a point and at least one digit) and an exponent (\<^verbatim>\<open>e\<close> or \<^verbatim>\<open>E\<close>, an optional
  sign, at least one digit) when they are there in full. The scanner returns the literal and
  the text after it.
\<close>

definition is_digit :: "nat \<Rightarrow> bool" where
  "is_digit c = (48 \<le> c \<and> c \<le> 57)"

definition scan_int_part :: "pystr \<Rightarrow> (pystr \<times> pystr) option" where
  "scan_int_part cs =
     (case cs of
        [] \<Rightarrow> None
      | c # rest \<Rightarrow>
          if c = 48 then Some ([48], rest)
          else if 49 \<le> c \<and> c \<le> 57 then Some (c # takeWhile is_digit rest, dropWhile is_digit rest)
          else None)"

definition scan_fraction :: "pystr \<Rightarrow> pystr \<times> pystr" where
  "scan_fraction cs =
     (case cs of
        c # d # rest \<Rightarrow>
          if c = 46 \<and> is_digit d
          then (c # d # takeWhile is_digit rest, dropWhile is_digit rest)
          else ([], cs)
      | _ \<Rightarrow> ([], cs))"

definition scan_exponent :: "pystr \<Rightarrow> pystr \<times> pystr" where
  "scan_exponent cs =
     (case cs of
        [] \<Rightarrow> ([], cs)
      | c # rest \<Rightarrow>
          if c = 101 \<or> c = 69 then
            (let sign = (case rest of [] \<Rightarrow> [] | d # r \<Rightarrow> if d = 45 \<or> d = 43 then [d] else []);
                 after_sign = drop (length sign) rest;
                 digits = takeWhile is_digit after_sign
             in if digits = [] then ([], cs)
                else (c # sign @ digits, dropWhile is_digit after_sign))
          else ([], cs))"

definition match_number :: "pystr \<Rightarrow> (pystr \<times> pystr) option" where
  "match_number cs =
     (let minus = (case cs of [] \<Rightarrow> [] | c # r \<Rightarrow> if c = 45 then [c] else [])
      in case scan_int_part (drop (length minus) cs) of
           None \<Rightarrow> None
         | Some (ip, rest) \<Rightarrow>
             (case scan_fraction rest of
                (fr, rest') \<Rightarrow>
                  (case scan_exponent rest' of
                     (ex, rest'') \<Rightarrow> Some (minus @ ip @ fr @ ex, rest''))))"

text \<open>
  The text as a list of tokens. White space (space, tab, line feed, carriage return) may
  stand between any two tokens. The constants and the numbers are tokens with their value.
\<close>

datatype token =
    TLBrace | TRBrace | TLBracket | TRBracket | TColon | TComma
  | TString pystr
  | TValue json

definition starts_with :: "pystr \<Rightarrow> pystr \<Rightarrow> bool" where
  "starts_with pre cs = (take (length pre) cs = pre)"

definition scan_token :: "pystr \<Rightarrow> (token \<times> pystr) option" where
  "scan_token cs =
     (case cs of
        [] \<Rightarrow> None
      | c # rest \<Rightarrow>
          if c = 34 then map_option (\<lambda>(s, r). (TString s, r)) (scanstring rest)
          else if c = 123 then Some (TLBrace, rest)
          else if c = 125 then Some (TRBrace, rest)
          else if c = 91 then Some (TLBracket, rest)
          else if c = 93 then Some (TRBracket, rest)
          else if c = 58 then Some (TColon, rest)
          else if c = 44 then Some (TComma, rest)
          else if starts_with (str ''null'') cs then Some (TValue JNull, drop 4 cs)
          else if starts_with (str ''true'') cs then Some (TValue (JBool True), drop 4 cs)
          else if starts_with (str ''false'') cs then Some (TValue (JBool False), drop 5 cs)
          else if starts_with (str ''NaN'') cs then Some (TValue (JNumber (str ''NaN'')), drop 3 cs)
          else if starts_with (str ''Infinity'') cs
            then Some (TValue (JNumber (str ''Infinity'')), drop 8 cs)
          else if starts_with (str ''-Infinity'') cs
            then Some (TValue (JNumber (str ''-Infinity'')), drop 9 cs)
          else map_option (\<lambda>(lit, r). (TValue (JNumber lit), r)) (match_number cs))"

definition is_whitespace :: "nat \<Rightarrow> bool" where
  "is_whitespace c = (c = 32 \<or> c = 9 \<or> c = 10 \<or> c = 13)"

lemma scanstring_shorter:
  "scanstring cs = Some (s, rest) \<Longrightarrow> length rest < length cs"
proof (induction "length cs" arbitrary: cs s rest rule: less_induct)
  case less
  show ?case
  proof (cases cs)
    case Nil
    with less.prems show ?thesis by simp
  next
    case (Cons c cs')
    have sub: "length r < length cs"
      if "scanstring (drop n cs') = Some (a, r)" for n a r
      using less.hyps [of "drop n cs'" a r] that Cons by (simp add: less_Suc_eq_le)
    consider "rest = cs'"
      | n a where "scanstring (drop n cs') = Some (a, rest)"
    proof (cases rule: case_split [of "c = 34"])
      case True
      with less.prems Cons that(1) show ?thesis by simp
    next
      case False
      show ?thesis
      proof (cases "c = 92")
        case c: False
        with False less.prems Cons obtain a where "scanstring (drop 0 cs') = Some (a, rest)"
          by (auto simp: scanned_def split: if_splits)
        then show ?thesis by (rule that(2))
      next
        case c: True
        show ?thesis
        proof (cases cs')
          case Nil
          with c less.prems Cons show ?thesis by simp
        next
          case cs': (Cons e cs'')
          have d: "drop (Suc n) cs' = drop n cs''" for n by (simp add: cs')
          from c less.prems Cons cs'
          have "\<exists>n a. scanstring (drop n cs'') = Some (a, rest)"
            by (auto simp: scanned_def split: if_splits option.splits intro: exI [of _ 0])
          then obtain n a where "scanstring (drop (Suc n) cs') = Some (a, rest)"
            unfolding d by blast
          then show ?thesis by (rule that(2))
        qed
      qed
    qed
    then show ?thesis
    proof cases
      case 1
      with Cons show ?thesis by simp
    next
      case 2
      then show ?thesis by (rule sub)
    qed
  qed
qed

lemma match_number_shorter:
  "match_number cs = Some (lit, rest) \<Longrightarrow> length rest < length cs"
proof -
  have dw: "length (dropWhile P xs) \<le> length xs" for P and xs :: pystr
    by (rule length_dropWhile_le)
  have ip: "scan_int_part xs = Some (i, r) \<Longrightarrow> length r < length xs" for xs i r
    using dw [of is_digit "tl xs"]
    by (auto simp: scan_int_part_def less_Suc_eq_le split: list.splits if_splits)
  have fr: "scan_fraction xs = (f, r) \<Longrightarrow> length r \<le> length xs" for xs f r
    using dw [of is_digit "tl (tl xs)"]
    by (auto simp: scan_fraction_def split: list.splits if_splits)
  have ex: "scan_exponent xs = (e, r) \<Longrightarrow> length r \<le> length xs" for xs e r
  proof (cases xs)
    case Nil
    then show "scan_exponent xs = (e, r) \<Longrightarrow> length r \<le> length xs"
      by (simp add: scan_exponent_def)
  next
    case (Cons c rest)
    have "length (dropWhile is_digit (drop n rest)) \<le> length rest" for n
      using dw [of is_digit "drop n rest"] by simp
    with Cons show "scan_exponent xs = (e, r) \<Longrightarrow> length r \<le> length xs"
      by (auto simp: scan_exponent_def Let_def le_Suc_eq split: if_splits)
  qed
  assume "match_number cs = Some (lit, rest)"
  then obtain m i r1 f r2 e where
    "scan_int_part (drop m cs) = Some (i, r1)" "scan_fraction r1 = (f, r2)"
    "scan_exponent r2 = (e, rest)"
    by (auto simp: match_number_def Let_def split: option.splits prod.splits)
  from ip [OF this(1)] fr [OF this(2)] ex [OF this(3)] show ?thesis by simp
qed

lemma scan_token_shorter:
  "scan_token cs = Some (t, rest) \<Longrightarrow> length rest < length cs"
  by (cases cs)
     (auto simp: scan_token_def starts_with_def str_def split: if_splits
           dest!: scanstring_shorter match_number_shorter)

function tokenize :: "pystr \<Rightarrow> token list option" where
  "tokenize [] = Some []"
| "tokenize (c # cs) =
     (if is_whitespace c then tokenize cs
      else (case scan_token (c # cs) of
              None \<Rightarrow> None
            | Some (t, rest) \<Rightarrow> map_option (Cons t) (tokenize rest)))"
  by pat_completeness auto
termination
  by (relation "measure length") (auto dest: scan_token_shorter)

text \<open>
  The grammar, as a machine over the tokens with a stack of the containers that are open:
  an array with its elements so far, an object with its members so far and the key that
  waits for its value (both lists newest first). \<open>dict_of\<close> is Python's \<^verbatim>\<open>dict(pairs)\<close>: a
  repeated key keeps its first place and takes the last value.
\<close>

datatype frame = InArray "json list" | InObject "(pystr \<times> json) list" "pystr option"

datatype expect = Value | ValueOrEnd | KeyOrEnd | Key | Colon | CommaOrEnd | Finished json

fun dict_of :: "(pystr \<times> json) list \<Rightarrow> (pystr \<times> json) list" where
  "dict_of [] = []"
| "dict_of ((k, v) # kvs) =
     (k, case map_of (rev kvs) k of None \<Rightarrow> v | Some v' \<Rightarrow> v') # filter (\<lambda>(k', v'). k' \<noteq> k) (dict_of kvs)"

fun reduce :: "json \<Rightarrow> frame list \<Rightarrow> (expect \<times> frame list) option" where
  "reduce v [] = Some (Finished v, [])"
| "reduce v (InArray es # st) = Some (CommaOrEnd, InArray (v # es) # st)"
| "reduce v (InObject ms (Some k) # st) = Some (CommaOrEnd, InObject ((k, v) # ms) None # st)"
| "reduce v (InObject ms None # st) = None"

fun begin_value :: "token \<Rightarrow> frame list \<Rightarrow> (expect \<times> frame list) option" where
  "begin_value (TString s) st = reduce (JString s) st"
| "begin_value (TValue v) st = reduce v st"
| "begin_value TLBracket st = Some (ValueOrEnd, InArray [] # st)"
| "begin_value TLBrace st = Some (KeyOrEnd, InObject [] None # st)"
| "begin_value t st = None"

fun end_container :: "token \<Rightarrow> frame list \<Rightarrow> (expect \<times> frame list) option" where
  "end_container TRBracket (InArray es # st) = reduce (JArray (rev es)) st"
| "end_container TRBrace (InObject ms None # st) = reduce (JObject (dict_of (rev ms))) st"
| "end_container t st = None"

fun begin_key :: "token \<Rightarrow> frame list \<Rightarrow> (expect \<times> frame list) option" where
  "begin_key (TString k) (InObject ms None # st) = Some (Colon, InObject ms (Some k) # st)"
| "begin_key t st = None"

fun step :: "expect \<times> frame list \<Rightarrow> token \<Rightarrow> (expect \<times> frame list) option" where
  "step (Value, st) t = begin_value t st"
| "step (ValueOrEnd, st) t = (if t = TRBracket then end_container t st else begin_value t st)"
| "step (KeyOrEnd, st) t = (if t = TRBrace then end_container t st else begin_key t st)"
| "step (Key, st) t = begin_key t st"
| "step (Colon, st) t = (if t = TColon then Some (Value, st) else None)"
| "step (CommaOrEnd, st) t =
     (if t = TComma then
        (case st of
           InArray es # st' \<Rightarrow> Some (Value, st)
         | InObject ms None # st' \<Rightarrow> Some (Key, st)
         | _ \<Rightarrow> None)
      else end_container t st)"
| "step (Finished v, st) t = None"

fun run_tokens :: "expect \<times> frame list \<Rightarrow> token list \<Rightarrow> (expect \<times> frame list) option" where
  "run_tokens q [] = Some q"
| "run_tokens q (t # ts) = (case step q t of None \<Rightarrow> None | Some q' \<Rightarrow> run_tokens q' ts)"

definition json_loads :: "pystr \<Rightarrow> py_exn + json" where
  "json_loads s =
     (case tokenize s of
        None \<Rightarrow> Inl JSONDecodeError
      | Some ts \<Rightarrow>
          (case run_tokens (Value, []) ts of
             Some (Finished v, st) \<Rightarrow> Inr v
           | _ \<Rightarrow> Inl JSONDecodeError))"

section \<open>The change descriptor\<close>

text \<open>
  \<^verbatim>\<open>ChangeType\<close> and \<^verbatim>\<open>PullRequestState\<close> are enumerations that are also \<^verbatim>\<open>str\<close>: a
  member is a string with the value below.
\<close>

fun ChangeType_value :: "ChangeType \<Rightarrow> pystr" where
  "ChangeType_value add = str ''Add''"
| "ChangeType_value update = str ''Update''"
| "ChangeType_value delete = str ''Delete''"

fun PullRequestState_value :: "PullRequestState \<Rightarrow> pystr" where
  "PullRequestState_value pending = str ''Pending''"
| "PullRequestState_value merged = str ''Merged''"
| "PullRequestState_value rejected = str ''Rejected''"

text \<open>
  The dataclass \<^verbatim>\<open>PullRequestBody\<close>. A dataclass does not check or convert the values it is
  built from, so the types of the five embedded fields are parameters of the record: a
  descriptor a caller builds holds what the annotations say (strings, a \<^verbatim>\<open>ChangeType\<close>, a
  bool); one that \<^verbatim>\<open>deserialize\<close> builds holds the values of the payload as
  \<^verbatim>\<open>json.loads\<close> returned them. \<open>state\<close>, \<open>url\<close> and \<open>created_at\<close> are given by the caller.
\<close>

record ('s, 'c, 'b) PullRequestBody =
  filename :: 's
  item_type :: 's
  change_type :: 'c
  state :: PullRequestState
  url :: "pystr option"
  created_at :: "nat option"
  user :: 's
  data_owner :: 'b

type_synonym descriptor = "(pystr, ChangeType, bool) PullRequestBody"

type_synonym decoded = "(json, json, json) PullRequestBody"

subsection \<open>serialize\<close>

text \<open>
  The objects in the dict of \<^verbatim>\<open>dataclasses.asdict\<close>, and \<^verbatim>\<open>json.dumps\<close> of a dict of them
  with the default separators. A member of a str enumeration is written as its value; a
  datetime is not serializable (\<^verbatim>\<open>TypeError\<close>).
\<close>

datatype pyobj =
    Str pystr
  | Bool bool
  | NoneObject
  | ChangeTypeMember ChangeType
  | StateMember PullRequestState
  | Datetime nat

definition asdict :: "descriptor \<Rightarrow> (pystr \<times> pyobj) list" where
  "asdict b =
     [(str ''filename'', Str (filename b)),
      (str ''item_type'', Str (item_type b)),
      (str ''change_type'', ChangeTypeMember (change_type b)),
      (str ''state'', StateMember (state b)),
      (str ''url'', case url b of None \<Rightarrow> NoneObject | Some u \<Rightarrow> Str u),
      (str ''created_at'', case created_at b of None \<Rightarrow> NoneObject | Some t \<Rightarrow> Datetime t),
      (str ''user'', Str (user b)),
      (str ''data_owner'', Bool (data_owner b))]"

fun dumps_value :: "pyobj \<Rightarrow> py_exn + pystr" where
  "dumps_value (Str s) = Inr (encode_basestring_ascii s)"
| "dumps_value (Bool v) = Inr (if v then str ''true'' else str ''false'')"
| "dumps_value NoneObject = Inr (str ''null'')"
| "dumps_value (ChangeTypeMember c) = Inr (encode_basestring_ascii (ChangeType_value c))"
| "dumps_value (StateMember st) = Inr (encode_basestring_ascii (PullRequestState_value st))"
| "dumps_value (Datetime t) = Inl TypeError"

fun dumps_items :: "(pystr \<times> pyobj) list \<Rightarrow> py_exn + pystr list" where
  "dumps_items [] = Inr []"
| "dumps_items ((k, v) # kvs) =
     (case dumps_value v of
        Inl e \<Rightarrow> Inl e
      | Inr text \<Rightarrow>
          (case dumps_items kvs of
             Inl e \<Rightarrow> Inl e
           | Inr texts \<Rightarrow> Inr ((encode_basestring_ascii k @ str '': '' @ text) # texts)))"

definition json_dumps :: "(pystr \<times> pyobj) list \<Rightarrow> py_exn + pystr" where
  "json_dumps d =
     (case dumps_items d of
        Inl e \<Rightarrow> Inl e
      | Inr texts \<Rightarrow> Inr (str ''{'' @ join_with (str '', '') texts @ str ''}''))"

definition serialize :: "descriptor \<Rightarrow> py_exn + pystr" where
  "serialize b =
     (let d = filter (\<lambda>(k, v). k \<notin> set [str ''url'', str ''created_at'', str ''state''])
                (asdict b)
      in json_dumps d)"

subsection \<open>deserialize\<close>

text \<open>
  The call \<^verbatim>\<open>cls(**kwargs, url=url, state=state, created_at=created_at)\<close>: a key of the
  payload that names one of the three given arguments, a key that is not a field, and a field
  without a value are each a \<^verbatim>\<open>TypeError\<close>. The values are stored as they are.
\<close>

definition new_PullRequestBody ::
  "(pystr \<times> json) list \<Rightarrow> pystr \<Rightarrow> PullRequestState \<Rightarrow> nat \<Rightarrow> py_exn + decoded" where
  "new_PullRequestBody kwargs url_arg state_arg created_at_arg =
     (if list_ex (\<lambda>k. k \<in> set [str ''url'', str ''state'', str ''created_at'']) (map fst kwargs)
      then Inl TypeError
      else if list_ex (\<lambda>k. k \<notin> set [str ''filename'', str ''item_type'', str ''change_type'',
                                     str ''user'', str ''data_owner'']) (map fst kwargs)
      then Inl TypeError
      else
        (case (map_of kwargs (str ''filename''), map_of kwargs (str ''item_type''),
               map_of kwargs (str ''change_type''), map_of kwargs (str ''user''),
               map_of kwargs (str ''data_owner'')) of
           (Some fn, Some it, Some ct, Some us, Some ow) \<Rightarrow>
             Inr \<lparr>filename = fn, item_type = it, change_type = ct, state = state_arg,
                  url = Some url_arg, created_at = Some created_at_arg, user = us,
                  data_owner = ow\<rparr>
         | _ \<Rightarrow> Inl TypeError))"

text \<open>
  The body of the \<^verbatim>\<open>try\<close>: \<^verbatim>\<open>json.loads\<close> of something that is not a string (a pull
  request without a body has \<^verbatim>\<open>None\<close>) is a \<^verbatim>\<open>TypeError\<close>, and so is \<^verbatim>\<open>**\<close> applied to a
  value that is not a dict. The handler turns both exceptions into \<^verbatim>\<open>DeserializeError\<close>.
\<close>

definition loads_and_construct ::
  "pystr option \<Rightarrow> pystr \<Rightarrow> PullRequestState \<Rightarrow> nat \<Rightarrow> py_exn + decoded" where
  "loads_and_construct data url_arg state_arg created_at_arg =
     (case data of
        None \<Rightarrow> Inl TypeError
      | Some text \<Rightarrow>
          (case json_loads text of
             Inl e \<Rightarrow> Inl e
           | Inr (JObject kwargs) \<Rightarrow> new_PullRequestBody kwargs url_arg state_arg created_at_arg
           | Inr v \<Rightarrow> Inl TypeError))"

definition deserialize ::
  "pystr option \<Rightarrow> pystr \<Rightarrow> PullRequestState \<Rightarrow> nat \<Rightarrow> error + decoded" where
  "deserialize data url_arg state_arg created_at_arg =
     (case loads_and_construct data url_arg state_arg created_at_arg of
        Inl JSONDecodeError \<Rightarrow> Inl DeserializeError
      | Inl TypeError \<Rightarrow> Inl DeserializeError
      | Inr b \<Rightarrow> Inr b)"

section \<open>The submission lister\<close>





section \<open>Notions and examples for the statements on the descriptor\<close>

text \<open>The keys of the five embedded fields, in the order of the dataclass.\<close>

definition embedded_keys :: "pystr list" where
  "embedded_keys =
     [str ''filename'', str ''item_type'', str ''change_type'', str ''user'', str ''data_owner'']"


text \<open>
  Two properties of a string: its code points are code points of Python, and no high
  surrogate stands right before a low surrogate.
\<close>

definition valid_str :: "pystr \<Rightarrow> bool" where
  "valid_str s = list_all (\<lambda>c. c < 0x110000) s"

fun no_surrogate_pair :: "pystr \<Rightarrow> bool" where
  "no_surrogate_pair (c # d # cs) =
     (\<not> (is_high_surrogate c \<and> is_low_surrogate d) \<and> no_surrogate_pair (d # cs))"
| "no_surrogate_pair cs = True"

text \<open>
  The descriptors of the examples: the spec's new item of bob, and one whose filename is a
  high surrogate followed by a low surrogate (two code points).
\<close>

definition bob_descriptor :: descriptor where
  "bob_descriptor =
     \<lparr>filename = str ''bob/x.json'', item_type = str ''product'', change_type = add,
      state = pending, url = None, created_at = None, user = str ''bob'', data_owner = False\<rparr>"

definition surrogate_descriptor :: descriptor where
  "surrogate_descriptor = bob_descriptor\<lparr>filename := [0xD83D, 0xDE00]\<rparr>"

section \<open>Lemmas on the branch allocator\<close>

lemma answered_trace:
  "answered c f rw s = (r, s') \<Longrightarrow>
   r = fst rw \<and> trace s' = trace s @ [Called c (map_sum id f r)] \<and> logged s' = logged s"
  by (auto simp: answered_def)

lemma create_branch_allocation:
  "create_branch P main base p s = (r, s') \<Longrightarrow>
   \<exists>evs. trace s' = trace s @ evs \<and> allocation main base p evs r"
proof (induction P main base p s arbitrary: r s' rule: create_branch.induct)
  case (1 P main base p s)
  let ?nm = "branch_name_of base p"
  let ?s2 = "\<lambda>s1. logger_info (str ''Creating branch with '' @ ?nm) s1"
  obtain a s1 where g: "call_get_branch P main s = (a, s1)" by (cases "call_get_branch P main s")
  then have t1: "trace s1 = trace s @ [Called (GetBranch main) (map_sum id Sha a)]"
    by (auto simp: call_get_branch_def dest: answered_trace)
  show ?case
  proof (cases a)
    case (Inl e)
    with g "1.prems" t1 show ?thesis
      by (auto simp: create_branch.simps [of P main base p s] intro: allocation.tip_failed)
  next
    case (Inr tip)
    obtain b s3 where c: "call_create_git_ref P (str ''refs/heads/'' @ ?nm) tip (?s2 s1) = (b, s3)"
      by (cases "call_create_git_ref P (str ''refs/heads/'' @ ?nm) tip (?s2 s1)")
    have t2: "trace (?s2 s1) = trace s1" by (simp add: logger_info_def)
    from c have t3: "trace s3 = trace (?s2 s1) @ [Called (CreateGitRef (str ''refs/heads/'' @ ?nm) tip) (map_sum id (\<lambda>u. Done) b)]"
      by (auto simp: call_create_git_ref_def dest: answered_trace)
    show ?thesis
    proof (cases b)
      case (Inr u)
      with g c "1.prems" t1 t2 t3 \<open>a = Inr tip\<close> show ?thesis
        by (auto simp: create_branch.simps [of P main base p s] intro: allocation.created)
    next
      case (Inl e)
      show ?thesis
      proof (cases "is_GithubException e \<and> status e = 422 \<and> p \<le> 15")
        case False
        with Inl g c \<open>a = Inr tip\<close> "1.prems" have "r = Inl (Platform e)" "s' = s3"
          by (auto simp: create_branch.simps [of P main base p s] split: if_splits)
        with False t1 t2 t3 \<open>a = Inr tip\<close> Inl show ?thesis
          by (auto intro!: allocation.gave_up)
      next
        case True
        with Inl g c \<open>a = Inr tip\<close> "1.prems"
        have rec: "create_branch P main base (p + 1) s3 = (r, s')"
          by (auto simp: create_branch.simps [of P main base p s])
        from True have np: "\<not> 15 < p" by simp
        from True have ge: "is_GithubException e" and st: "status e = 422" by simp_all
        from "1.IH" [OF g [symmetric] \<open>a = Inr tip\<close> refl refl c [symmetric] Inl ge st np rec]
        obtain evs where "trace s' = trace s3 @ evs" "allocation main base (p + 1) evs r" by auto
        with True t1 t2 t3 \<open>a = Inr tip\<close> Inl show ?thesis
          by (auto intro!: allocation.retried)
      qed
    qed
  qed
qed


lemma allocation_refs:
  "allocation main base p evs r \<Longrightarrow>
   \<exists>n. requested_refs evs = map (\<lambda>k. str ''refs/heads/'' @ branch_name_of base (p + int k)) [0..<n]
     \<and> (\<forall>name. r = Inr name \<longrightarrow> 0 < n \<and> name = branch_name_of base (p + int n - 1))"
proof (induction rule: allocation.induct)
  case (tip_failed p e)
  show ?case by (rule exI [of _ 0]) simp
next
  case (created p tip)
  show ?case by (rule exI [of _ 1]) simp
next
  case (gave_up e p tip)
  show ?case by (rule exI [of _ 1]) simp
next
  case (retried e p evs r tip)
  then obtain n where n: "requested_refs evs = map (\<lambda>k. str ''refs/heads/'' @ branch_name_of base (p + 1 + int k)) [0..<n]"
    "\<forall>name. r = Inr name \<longrightarrow> 0 < n \<and> name = branch_name_of base (p + 1 + int n - 1)" by blast
  have "map (\<lambda>k. str ''refs/heads/'' @ branch_name_of base (p + int k)) [0..<Suc n]
      = (str ''refs/heads/'' @ branch_name_of base p) # map (\<lambda>k. str ''refs/heads/'' @ branch_name_of base (p + 1 + int k)) [0..<n]"
    by (simp add: upt_conv_Cons map_Suc_upt [symmetric] algebra_simps del: upt_Suc)
  with n show ?case by (intro exI [of _ "Suc n"]) (auto simp: algebra_simps)
qed

lemma allocation_bound:
  "allocation main base p evs r \<Longrightarrow> int (length (requested_refs evs)) \<le> max 1 (17 - p)"
  by (induction rule: allocation.induct) auto

lemma allocation_failures:
  "allocation main base p evs r \<Longrightarrow>
   (\<forall>e \<in> set (creation_failures evs). \<not> name_taken e \<longrightarrow> r = Inl (Platform e))
   \<and> (p + int (length (creation_failures evs)) > 16 \<longrightarrow> creation_failures evs \<noteq> [] \<longrightarrow> r = Inl (Platform (last (creation_failures evs))))"
proof (induction rule: allocation.induct)
  case (retried e p evs r tip)
  then show ?case by (auto simp: name_taken_def)
qed (auto simp: name_taken_def)

lemma allocation_preceded:
  "allocation main base p evs r \<Longrightarrow> i < length evs \<Longrightarrow> evs ! i = Called (CreateGitRef ref sh) a \<Longrightarrow>
   0 < i \<and> evs ! (i - 1) = Called (GetBranch main) (Inr (Sha sh))"
proof (induction arbitrary: i rule: allocation.induct)
  case (retried e p evs r tip)
  show ?case
  proof (cases "i < 2")
    case True
    with retried.prems show ?thesis by (cases i) auto
  next
    case False
    then obtain j where j: "i = Suc (Suc j)" by (cases i; cases "i - 1") auto
    with retried.prems have "j < length evs" "evs ! j = Called (CreateGitRef ref sh) a" by auto
    from retried.IH [OF this] j show ?thesis by (cases j) auto
  qed
next
  case (created p tip)
  then show ?case by (cases i) auto
next
  case (gave_up e p tip)
  then show ?case by (cases i) auto
qed auto

lemma allocation_created:
  "allocation main base p evs (Inr name) \<Longrightarrow>
   \<exists>pre tip. evs = pre @ [Called (GetBranch main) (Inr (Sha tip)),
                           Called (CreateGitRef (str ''refs/heads/'' @ name) tip) (Inr Done)]
      \<and> (\<forall>ev \<in> set pre. \<forall>c. ev \<noteq> Called c (Inr Done))"
proof (induction p evs "Inr name :: error + pystr" rule: allocation.induct)
  case (created p tip)
  then show ?case by (intro exI [of _ "[]"] exI [of _ tip]) simp
next
  case (retried e p evs tip)
  then obtain pre t where "evs = pre @ [Called (GetBranch main) (Inr (Sha t)),
                           Called (CreateGitRef (str ''refs/heads/'' @ name) t) (Inr Done)]"
      "\<forall>ev \<in> set pre. \<forall>c. ev \<noteq> Called c (Inr Done)" by blast
  then show ?case
    by (intro exI [of _ "Called (GetBranch main) (Inr (Sha tip)) # Called (CreateGitRef (str ''refs/heads/'' @ branch_name_of base p) tip) (Inl e) # pre"] exI [of _ t]) auto
qed

lemma new_events_append: "trace s' = trace s @ evs \<Longrightarrow> new_events s s' = evs"
  by (simp add: new_events_def)

section \<open>Lemmas on the locator and the orchestrator\<close>

lemma and_then_Inr:
  "and_then m f = (Inr y, s') \<Longrightarrow> \<exists>x s1. m = (Inr x, s1) \<and> f x s1 = (Inr y, s')"
  by (cases m) (auto simp: and_then_def split: sum.splits)

lemma raising_Inr:
  "raising m = (Inr y, s') \<Longrightarrow> m = (Inr y, s')"
  by (cases m) (auto simp: raising_def split: sum.splits)

lemma previous_version_sha_events:
  assumes "previous_version_sha P main pth s = (Inr tok, s')"
  shows "\<exists>ref a. trace s' = trace s @ [Called (GetGitTree ref) a]
           \<and> looked_up main pth ref a \<and> tok = token_of a pth"
proof -
  from assms obtain ref where ref: "quote_plus (main @ str '':'' @ path_str (path_parent (pure_path_of pth))) = Some ref"
    by (auto simp: previous_version_sha_def Let_def split: option.splits)
  obtain a s1 where c: "call_get_git_tree P ref s = (a, s1)" by (cases "call_get_git_tree P ref s")
  then have t: "trace s1 = trace s @ [Called (GetGitTree ref) (map_sum id Tree a)]"
    by (auto simp: call_get_git_tree_def answered_def prod_eq_iff)
  from assms ref c have "s' = s1 \<and> (a = Inl UnknownObjectException \<or> (\<exists>t. a = Inr t)) \<and> tok = token_of (map_sum id Tree a) pth"
    by (auto simp: previous_version_sha_def Let_def token_of_def split: sum.splits platform_error.splits)
  with ref t have "trace s' = trace s @ [Called (GetGitTree ref) (map_sum id Tree a)]
      \<and> looked_up main pth ref (map_sum id Tree a) \<and> tok = token_of (map_sum id Tree a) pth"
    by (auto simp: looked_up_def)
  then show ?thesis by blast
qed

lemma called_Inr:
  "answered c f rw s = (Inr y, s') \<Longrightarrow> trace s' = trace s @ [Called c (Inr (f y))]"
  by (auto simp: answered_def)

lemma create_pull_request_events:
  assumes run: "create_pull_request P main base title pr_body fc fd labels s = (Inr u, s')"
  shows "\<exists>A bn W D n L.
      new_events s s' =
        Called GetRepo (Inr Done) # A @ W @ D @
        Called (CreatePull title pr_body bn main True) (Inr (Pull n)) # L
    \<and> allocation main base 1 A (Inr bn)
    \<and> (case fc of
          None \<Rightarrow> W = []
        | Some (pth, content) \<Rightarrow>
            (\<exists>ref a. W = [Called (GetGitTree ref) a,
                           Called (UpdateFile pth (str ''Add '' @ pth @ str '' for pull request submission'')
                                     content (token_of a pth) bn) (Inr Done)]
                    \<and> looked_up main pth ref a))
    \<and> (if fd = None \<or> fd = Some [] then D = []
        else (\<exists>ref a. D = [Called (GetGitTree ref) a,
                            Called (DeleteFile (the fd)
                                      (str ''Delete '' @ the fd @ str '' for pull request submission'')
                                      (token_of a (the fd)) bn) (Inr Done)]
                     \<and> looked_up main (the fd) ref a))
    \<and> L = (if labels = [] then [] else [Called (SetLabels n labels) (Inr Done)])"
proof -
  define s0 where "s0 = logger_info (str ''File to delete: '' @ str_or_None fd)
      (logger_info (str ''File to create: '' @ str_or_None (map_option fst fc))
        (logger_info (str ''Creating pull request'') s))"
  have t0: "trace s0 = trace s" by (simp add: s0_def logger_info_def)
  note run' = run [unfolded create_pull_request_def Let_def, folded s0_def]
  from and_then_Inr [OF run'] obtain repo s1 where
    g: "raising (call_get_repo P s0) = (Inr repo, s1)" and
    r1: "and_then (create_branch P main base 1 s1) (\<lambda>branch_name s.
      and_then
        (case fc of
           Some (pth, content) \<Rightarrow>
             and_then (previous_version_sha P main pth s) (\<lambda>sh s.
               raising (call_update_file P pth
                 (str ''Add '' @ pth @ str '' for pull request submission'') content sh
                 branch_name s))
         | None \<Rightarrow> (Inr (), s)) (\<lambda>u s.
      and_then
        (if fd \<noteq> None \<and> fd \<noteq> Some [] then
           and_then (previous_version_sha P main (the fd) s) (\<lambda>sh s.
             raising (call_delete_file P (the fd)
               (str ''Delete '' @ the fd @ str '' for pull request submission'') sh
               branch_name s))
         else (Inr (), s)) (\<lambda>u s.
      and_then (raising (call_create_pull P title pr_body branch_name main True s)) (\<lambda>pr s.
      and_then
        (if labels \<noteq> [] then raising (call_set_labels P pr labels s) else (Inr (), s)) (\<lambda>u s.
      (Inr (), logger_info (str ''Pull request successfully created'') s)))))) = (Inr u, s')"
    by blast
  from raising_Inr [OF g] have t1: "trace s1 = trace s0 @ [Called GetRepo (Inr Done)]"
    by (auto simp: call_get_repo_def dest: called_Inr)
  from and_then_Inr [OF r1] obtain bn s2 where
    b: "create_branch P main base 1 s1 = (Inr bn, s2)" and
    r2: "and_then
        (case fc of
           Some (pth, content) \<Rightarrow>
             and_then (previous_version_sha P main pth s2) (\<lambda>sh s.
               raising (call_update_file P pth
                 (str ''Add '' @ pth @ str '' for pull request submission'') content sh
                 bn s))
         | None \<Rightarrow> (Inr (), s2)) (\<lambda>u s.
      and_then
        (if fd \<noteq> None \<and> fd \<noteq> Some [] then
           and_then (previous_version_sha P main (the fd) s) (\<lambda>sh s.
             raising (call_delete_file P (the fd)
               (str ''Delete '' @ the fd @ str '' for pull request submission'') sh
               bn s))
         else (Inr (), s)) (\<lambda>u s.
      and_then (raising (call_create_pull P title pr_body bn main True s)) (\<lambda>pr s.
      and_then
        (if labels \<noteq> [] then raising (call_set_labels P pr labels s) else (Inr (), s)) (\<lambda>u s.
      (Inr (), logger_info (str ''Pull request successfully created'') s))))) = (Inr u, s')"
    by blast
  from create_branch_allocation [OF b] obtain A where
    t2: "trace s2 = trace s1 @ A" and A: "allocation main base 1 A (Inr bn)" by blast
  from and_then_Inr [OF r2] obtain u3 s3 where
    w: "(case fc of
           Some (pth, content) \<Rightarrow>
             and_then (previous_version_sha P main pth s2) (\<lambda>sh s.
               raising (call_update_file P pth
                 (str ''Add '' @ pth @ str '' for pull request submission'') content sh
                 bn s))
         | None \<Rightarrow> (Inr (), s2)) = (Inr u3, s3)" and
    r3: "and_then
        (if fd \<noteq> None \<and> fd \<noteq> Some [] then
           and_then (previous_version_sha P main (the fd) s3) (\<lambda>sh s.
             raising (call_delete_file P (the fd)
               (str ''Delete '' @ the fd @ str '' for pull request submission'') sh
               bn s))
         else (Inr (), s3)) (\<lambda>u s.
      and_then (raising (call_create_pull P title pr_body bn main True s)) (\<lambda>pr s.
      and_then
        (if labels \<noteq> [] then raising (call_set_labels P pr labels s) else (Inr (), s)) (\<lambda>u s.
      (Inr (), logger_info (str ''Pull request successfully created'') s)))) = (Inr u, s')"
    by blast
  have W: "\<exists>W. trace s3 = trace s2 @ W \<and>
    (case fc of
          None \<Rightarrow> W = []
        | Some (pth, content) \<Rightarrow>
            (\<exists>ref a. W = [Called (GetGitTree ref) a,
                           Called (UpdateFile pth (str ''Add '' @ pth @ str '' for pull request submission'')
                                     content (token_of a pth) bn) (Inr Done)]
                    \<and> looked_up main pth ref a))"
  proof (cases fc)
    case None
    with w show ?thesis by simp
  next
    case (Some pc)
    obtain pth content where pc: "pc = (pth, content)" by (cases pc)
    from w Some pc have "and_then (previous_version_sha P main pth s2) (\<lambda>sh s.
               raising (call_update_file P pth
                 (str ''Add '' @ pth @ str '' for pull request submission'') content sh
                 bn s)) = (Inr u3, s3)" by simp
    from and_then_Inr [OF this] obtain sh sx where
      l: "previous_version_sha P main pth s2 = (Inr sh, sx)" and
      uf: "raising (call_update_file P pth
                 (str ''Add '' @ pth @ str '' for pull request submission'') content sh bn sx) = (Inr u3, s3)"
      by blast
    from previous_version_sha_events [OF l] obtain ref a where
      "trace sx = trace s2 @ [Called (GetGitTree ref) a]"
      "sh = token_of a pth" "looked_up main pth ref a" by blast
    moreover from raising_Inr [OF uf] have "trace s3 = trace sx @ [Called (UpdateFile pth
        (str ''Add '' @ pth @ str '' for pull request submission'') content sh bn) (Inr Done)]"
      by (auto simp: call_update_file_def dest: called_Inr)
    ultimately show ?thesis using Some pc by auto
  qed
  then obtain W where t3: "trace s3 = trace s2 @ W" and Wc: "(case fc of
          None \<Rightarrow> W = []
        | Some (pth, content) \<Rightarrow>
            (\<exists>ref a. W = [Called (GetGitTree ref) a,
                           Called (UpdateFile pth (str ''Add '' @ pth @ str '' for pull request submission'')
                                     content (token_of a pth) bn) (Inr Done)]
                    \<and> looked_up main pth ref a))" by blast
  from and_then_Inr [OF r3] obtain u4 s4 where
    d: "(if fd \<noteq> None \<and> fd \<noteq> Some [] then
           and_then (previous_version_sha P main (the fd) s3) (\<lambda>sh s.
             raising (call_delete_file P (the fd)
               (str ''Delete '' @ the fd @ str '' for pull request submission'') sh
               bn s))
         else (Inr (), s3)) = (Inr u4, s4)" and
    r4: "and_then (raising (call_create_pull P title pr_body bn main True s4)) (\<lambda>pr s.
      and_then
        (if labels \<noteq> [] then raising (call_set_labels P pr labels s) else (Inr (), s)) (\<lambda>u s.
      (Inr (), logger_info (str ''Pull request successfully created'') s))) = (Inr u, s')"
    by blast
  have D: "\<exists>D. trace s4 = trace s3 @ D \<and>
     (if fd = None \<or> fd = Some [] then D = []
        else (\<exists>ref a. D = [Called (GetGitTree ref) a,
                            Called (DeleteFile (the fd)
                                      (str ''Delete '' @ the fd @ str '' for pull request submission'')
                                      (token_of a (the fd)) bn) (Inr Done)]
                     \<and> looked_up main (the fd) ref a))"
  proof (cases "fd = None \<or> fd = Some []")
    case True
    with d show ?thesis by auto
  next
    case False
    with d have "and_then (previous_version_sha P main (the fd) s3) (\<lambda>sh s.
             raising (call_delete_file P (the fd)
               (str ''Delete '' @ the fd @ str '' for pull request submission'') sh
               bn s)) = (Inr u4, s4)" by simp
    from and_then_Inr [OF this] obtain sh sx where
      l: "previous_version_sha P main (the fd) s3 = (Inr sh, sx)" and
      df: "raising (call_delete_file P (the fd)
               (str ''Delete '' @ the fd @ str '' for pull request submission'') sh bn sx) = (Inr u4, s4)"
      by blast
    from previous_version_sha_events [OF l] obtain ref a where
      "trace sx = trace s3 @ [Called (GetGitTree ref) a]"
      "sh = token_of a (the fd)" "looked_up main (the fd) ref a" by blast
    moreover from raising_Inr [OF df] have "trace s4 = trace sx @ [Called (DeleteFile (the fd)
        (str ''Delete '' @ the fd @ str '' for pull request submission'') sh bn) (Inr Done)]"
      by (auto simp: call_delete_file_def dest: called_Inr)
    ultimately show ?thesis using False by auto
  qed
  then obtain D where t4: "trace s4 = trace s3 @ D" and Dc: "(if fd = None \<or> fd = Some [] then D = []
        else (\<exists>ref a. D = [Called (GetGitTree ref) a,
                            Called (DeleteFile (the fd)
                                      (str ''Delete '' @ the fd @ str '' for pull request submission'')
                                      (token_of a (the fd)) bn) (Inr Done)]
                     \<and> looked_up main (the fd) ref a))" by blast
  from and_then_Inr [OF r4] obtain n s5 where
    cp: "raising (call_create_pull P title pr_body bn main True s4) = (Inr n, s5)" and
    r5: "and_then
        (if labels \<noteq> [] then raising (call_set_labels P n labels s5) else (Inr (), s5)) (\<lambda>u s.
      (Inr (), logger_info (str ''Pull request successfully created'') s)) = (Inr u, s')"
    by blast
  from raising_Inr [OF cp] have t5: "trace s5 = trace s4 @
      [Called (CreatePull title pr_body bn main True) (Inr (Pull n))]"
    by (auto simp: call_create_pull_def dest: called_Inr)
  from and_then_Inr [OF r5] obtain u6 s6 where
    sl: "(if labels \<noteq> [] then raising (call_set_labels P n labels s5) else (Inr (), s5)) = (Inr u6, s6)"
    and fin: "s' = logger_info (str ''Pull request successfully created'') s6"
    by auto
  have t6: "trace s6 = trace s5 @ (if labels = [] then [] else [Called (SetLabels n labels) (Inr Done)])"
  proof (cases "labels = []")
    case True
    with sl show ?thesis by simp
  next
    case False
    with sl have "raising (call_set_labels P n labels s5) = (Inr u6, s6)" by simp
    from raising_Inr [OF this] False show ?thesis
      by (auto simp: call_set_labels_def dest: called_Inr)
  qed
  from fin have t7: "trace s' = trace s6" by (simp add: logger_info_def)
  have "new_events s s' = Called GetRepo (Inr Done) # A @ W @ D @
        Called (CreatePull title pr_body bn main True) (Inr (Pull n)) #
        (if labels = [] then [] else [Called (SetLabels n labels) (Inr Done)])"
    by (simp add: new_events_def t7 t6 t5 t4 t3 t2 t1 t0)
  with A Wc Dc show ?thesis by blast
qed


lemma created_branches_append [simp]:
  "created_branches (xs @ ys) = created_branches xs @ created_branches ys"
  by (induction xs rule: created_branches.induct) simp_all

lemma file_writes_append [simp]: "file_writes (xs @ ys) = file_writes xs @ file_writes ys"
  by (induction xs rule: file_writes.induct) simp_all

lemma file_deletes_append [simp]: "file_deletes (xs @ ys) = file_deletes xs @ file_deletes ys"
  by (induction xs rule: file_deletes.induct) simp_all

lemma pulls_opened_append [simp]: "pulls_opened (xs @ ys) = pulls_opened xs @ pulls_opened ys"
  by (induction xs rule: pulls_opened.induct) simp_all

lemma label_calls_append [simp]: "label_calls (xs @ ys) = label_calls xs @ label_calls ys"
  by (induction xs rule: label_calls.induct) simp_all

lemma allocation_effects:
  "allocation main base p A (Inr bn) \<Longrightarrow>
   created_branches A = [str ''refs/heads/'' @ bn] \<and> file_writes A = [] \<and> file_deletes A = []
   \<and> pulls_opened A = [] \<and> label_calls A = []"
  by (induction p A "Inr bn :: error + pystr" rule: allocation.induct) auto

section \<open>Lemmas on the descriptor and the lister\<close>

lemma key_literals:
  "str ''filename'' \<noteq> str ''item_type''" "str ''filename'' \<noteq> str ''change_type''"
  "str ''filename'' \<noteq> str ''user''" "str ''filename'' \<noteq> str ''data_owner''"
  "str ''item_type'' \<noteq> str ''change_type''" "str ''item_type'' \<noteq> str ''user''"
  "str ''item_type'' \<noteq> str ''data_owner''" "str ''change_type'' \<noteq> str ''user''"
  "str ''change_type'' \<noteq> str ''data_owner''" "str ''user'' \<noteq> str ''data_owner''"
  "str ''url'' \<notin> set embedded_keys" "str ''state'' \<notin> set embedded_keys"
  "str ''created_at'' \<notin> set embedded_keys"
  by (simp_all add: str_def embedded_keys_def)

lemma embedded_filter:
  "filter (\<lambda>(k, v). k \<notin> set [str ''url'', str ''created_at'', str ''state'']) (asdict b) =
     [(str ''filename'', Str (filename b)),
      (str ''item_type'', Str (item_type b)),
      (str ''change_type'', ChangeTypeMember (change_type b)),
      (str ''user'', Str (user b)),
      (str ''data_owner'', Bool (data_owner b))]"
  by (simp add: asdict_def str_def)

lemma serialize_text:
  "serialize b =
     Inr (str ''{'' @
          encode_basestring_ascii (str ''filename'') @ str '': '' @
            encode_basestring_ascii (filename b) @ str '', '' @
          encode_basestring_ascii (str ''item_type'') @ str '': '' @
            encode_basestring_ascii (item_type b) @ str '', '' @
          encode_basestring_ascii (str ''change_type'') @ str '': '' @
            encode_basestring_ascii (ChangeType_value (change_type b)) @ str '', '' @
          encode_basestring_ascii (str ''user'') @ str '': '' @
            encode_basestring_ascii (user b) @ str '', '' @
          encode_basestring_ascii (str ''data_owner'') @ str '': '' @
            (if data_owner b then str ''true'' else str ''false'') @
          str ''}'')"
  unfolding serialize_def Let_def embedded_filter
  by (simp add: json_dumps_def)





section \<open>Lemmas on encoding and decoding\<close>

lemma hex_val_hex_digit: "d < 16 \<Longrightarrow> hex_val (hex_digit d) = Some d"
  by (auto simp: hex_val_def hex_digit_def)

lemma hex_split: "((n div 4096 * 16 + (n div 256) mod 16) * 16 + (n div 16) mod 16) * 16 + n mod 16 = (n::nat)"
proof -
  have d2: "n div 256 = n div 16 div 16" by (simp add: div_mult2_eq [symmetric])
  have d3: "n div 4096 = n div 16 div 16 div 16" by (simp add: div_mult2_eq [symmetric])
  have "n div 16 div 16 div 16 * 16 + (n div 16 div 16) mod 16 = n div 16 div 16" by simp
  then have "(n div 16 div 16 div 16 * 16 + (n div 16 div 16) mod 16) * 16 + (n div 16) mod 16 = n div 16"
    by simp
  then have "((n div 16 div 16 div 16 * 16 + (n div 16 div 16) mod 16) * 16 + (n div 16) mod 16) * 16 + n mod 16 = n"
    by simp
  then show ?thesis unfolding d2 d3 .
qed

lemma hex4_u_escape:
  assumes "n < 65536"
  shows "\<exists>q. u_escape n = 92 # 117 # q \<and> length q = 4 \<and> hex4 q = Some n"
proof -
  let ?a = "n div 4096" and ?b = "(n div 256) mod 16" and ?c = "(n div 16) mod 16" and ?d = "n mod 16"
  from assms have a: "?a < 16" by simp
  have "hex4 [hex_digit ?a, hex_digit ?b, hex_digit ?c, hex_digit ?d] = Some n"
    using a hex_split [of n] by (simp add: hex4_def hex_val_hex_digit)
  then show ?thesis by (simp add: u_escape_def)
qed

lemma scanstring_u:
  assumes "length q = 4" "hex4 q = Some uni"
  shows "scanstring (92 # 117 # q @ tl') =
     (if is_high_surrogate uni \<and> take 2 tl' = [92, 117] then
        (case hex4 (take 4 (drop 2 tl')) of
           None \<Rightarrow> None
         | Some uni2 \<Rightarrow>
             if is_low_surrogate uni2
             then scanned (join_surrogates uni uni2) (scanstring (drop 6 tl'))
             else scanned uni (scanstring tl'))
      else scanned uni (scanstring tl'))"
proof -
  from assms(1) have d: "take 4 (q @ tl') = q" "drop 4 (q @ tl') = tl'"
    "drop 6 (q @ tl') = drop 2 tl'" "drop 10 (q @ tl') = drop 6 tl'"
    by simp_all
  show ?thesis
    by (simp only: scanstring.simps list.case d assms(2) option.case)
       (simp add: backslash_def)
qed

lemma escape_char_cases:
  obtains (short) x where "escape_char c = [92, x]" "x \<noteq> 117" "backslash x = Some c"
  | (plain) "escape_char c = [c]" "c \<noteq> 92" "c \<noteq> 34" "\<not> c \<le> 31"
  | (bmp) "escape_char c = u_escape c" "c < 0x10000"
  | (astral) "escape_char c =
        u_escape (0xD800 + ((c - 0x10000) div 1024) mod 1024) @
        u_escape (0xDC00 + (c - 0x10000) mod 1024)" "\<not> c < 0x10000"
proof (cases "c \<in> {34, 92, 10, 13, 9, 8, 12}")
  case True
  then have "\<exists>x. escape_char c = [92, x] \<and> x \<noteq> 117 \<and> backslash x = Some c"
    unfolding escape_char_def backslash_def by (elim insertE emptyE) simp_all
  then show ?thesis using short by blast
next
  case False
  then have ne: "c \<noteq> 34" "c \<noteq> 92" "c \<noteq> 10" "c \<noteq> 13" "c \<noteq> 9" "c \<noteq> 8" "c \<noteq> 12"
    by simp_all
  show ?thesis
  proof (cases "32 \<le> c \<and> c \<le> 126")
    case True
    with ne have "escape_char c = [c]" by (simp add: escape_char_def)
    with True ne show ?thesis using plain by simp
  next
    case False
    then have r: "(32 \<le> c \<and> c \<le> 126) = False" by simp
    show ?thesis
    proof (cases "c < 0x10000")
      case True
      with ne have "escape_char c = u_escape c" by (simp add: escape_char_def r)
      with True show ?thesis using bmp by simp
    next
      case False
      with ne have "escape_char c =
        u_escape (0xD800 + ((c - 0x10000) div 1024) mod 1024) @
        u_escape (0xDC00 + (c - 0x10000) mod 1024)" by (simp add: escape_char_def r)
      with False show ?thesis using astral by simp
    qed
  qed
qed

lemma escape_char_head:
  assumes "take 2 (escape_char d @ after) = [92, 117]"
  shows "\<exists>u. hex4 (take 4 (drop 2 (escape_char d @ after))) = Some u
            \<and> (is_low_surrogate u \<longrightarrow> is_low_surrogate d)"
proof (cases d rule: escape_char_cases)
  case (short x)
  with assms show ?thesis by simp
next
  case plain
  with assms show ?thesis by simp
next
  case bmp
  from bmp(2) hex4_u_escape [of d] obtain q where
    "u_escape d = 92 # 117 # q" "length q = 4" "hex4 q = Some d" by auto
  with bmp(1) show ?thesis by simp
next
  case astral
  let ?hi = "0xD800 + ((d - 0x10000) div 1024) mod 1024"
  have "?hi < 65536" by simp
  from hex4_u_escape [OF this] obtain q where
    q: "u_escape ?hi = 92 # 117 # q" "length q = 4" "hex4 q = Some ?hi" by auto
  have "\<not> is_low_surrogate ?hi" by (simp add: is_low_surrogate_def)
  with astral(1) q show ?thesis by simp
qed

lemma scanstring_escaped:
  "valid_str s \<Longrightarrow> no_surrogate_pair s \<Longrightarrow>
   scanstring (concat (map escape_char s) @ 34 # rest) = Some (s, rest)"
proof (induction s)
  case Nil
  show ?case by simp
next
  case (Cons c cs)
  let ?tail = "concat (map escape_char cs) @ 34 # rest"
  from Cons.prems have v: "c < 0x110000" "valid_str cs" by (simp_all add: valid_str_def)
  from Cons.prems(2) have np: "no_surrogate_pair cs" by (cases cs) simp_all
  from Cons.IH [OF v(2) np] have IH: "scanstring ?tail = Some (cs, rest)" .
  have look: "\<exists>u. hex4 (take 4 (drop 2 ?tail)) = Some u \<and> \<not> is_low_surrogate u"
    if "is_high_surrogate c" "take 2 ?tail = [92, 117]"
  proof (cases cs)
    case Nil
    with that(2) show ?thesis by simp
  next
    case (Cons d ds)
    with that(2) have "take 2 (escape_char d @ (concat (map escape_char ds) @ 34 # rest)) = [92, 117]"
      by simp
    from escape_char_head [OF this] obtain u where
      "hex4 (take 4 (drop 2 (escape_char d @ (concat (map escape_char ds) @ 34 # rest)))) = Some u"
      "is_low_surrogate u \<longrightarrow> is_low_surrogate d" by blast
    moreover from Cons that(1) \<open>no_surrogate_pair (c # cs)\<close> have "\<not> is_low_surrogate d"
      by simp
    ultimately show ?thesis using Cons by auto
  qed
  have "scanstring (escape_char c @ ?tail) = Some (c # cs, rest)"
  proof (cases c rule: escape_char_cases)
    case (short x)
    with IH show ?thesis by (simp add: scanned_def)
  next
    case plain
    with IH show ?thesis by (simp add: scanned_def)
  next
    case bmp
    from bmp(2) hex4_u_escape [of c] obtain q where
      q: "u_escape c = 92 # 117 # q" "length q = 4" "hex4 q = Some c" by auto
    show ?thesis
    proof (cases "is_high_surrogate c \<and> take 2 ?tail = [92, 117]")
      case True
      with look obtain u where "hex4 (take 4 (drop 2 ?tail)) = Some u" "\<not> is_low_surrogate u"
        by blast
      with True IH show ?thesis
        unfolding bmp(1) q(1) append_Cons scanstring_u [OF q(2,3)] by (simp add: scanned_def)
    next
      case False
      then have "scanstring (92 # 117 # q @ ?tail) = scanned c (scanstring ?tail)"
        unfolding scanstring_u [OF q(2,3)] by (rule if_not_P)
      with IH show ?thesis unfolding bmp(1) q(1) append_Cons by (simp add: scanned_def)
    qed
  next
    case astral
    let ?v = "c - 0x10000"
    let ?hi = "0xD800 + (?v div 1024) mod 1024"
    let ?lo = "0xDC00 + ?v mod 1024"
    have "?hi < 65536" by simp
    from hex4_u_escape [OF this] obtain q where
      q: "u_escape ?hi = 92 # 117 # q" "length q = 4" "hex4 q = Some ?hi" by auto
    have "?lo < 65536" by simp
    from hex4_u_escape [OF this] obtain q' where
      q': "u_escape ?lo = 92 # 117 # q'" "length q' = 4" "hex4 q' = Some ?lo" by auto
    have hi: "is_high_surrogate ?hi" by (simp add: is_high_surrogate_def)
    have lo: "is_low_surrogate ?lo" by (simp add: is_low_surrogate_def)
    from v(1) astral(2) have "?v div 1024 < 1024" by simp
    then have "(?v div 1024) mod 1024 * 1024 + ?v mod 1024 = ?v" by simp
    with astral(2) have j: "join_surrogates ?hi ?lo = c" by (simp add: join_surrogates_def)
    have "scanstring (92 # 117 # q @ (92 # 117 # q' @ ?tail)) = Some (c # cs, rest)"
      unfolding scanstring_u [OF q(2,3)] using hi lo q'(2,3) IH j
      by (simp add: scanned_def)
    then show ?thesis unfolding astral(1) q(1) q'(1) by simp
  qed
  then show ?case by simp
qed

lemma tokenize_string:
  assumes "valid_str s" "no_surrogate_pair s"
  shows "tokenize (encode_basestring_ascii s @ rest) = map_option (Cons (TString s)) (tokenize rest)"
proof -
  have "scan_token (34 # concat (map escape_char s) @ 34 # rest) = Some (TString s, rest)"
    by (simp add: scan_token_def scanstring_escaped [OF assms])
  then show ?thesis
    by (simp add: encode_basestring_ascii_def is_whitespace_def)
qed

lemma tokenize_punctuation:
  "tokenize (str ''{'' @ rest) = map_option (Cons TLBrace) (tokenize rest)"
  "tokenize (str '': '' @ rest) = map_option (Cons TColon) (tokenize rest)"
  "tokenize (str '', '' @ rest) = map_option (Cons TComma) (tokenize rest)"
  by (simp_all add: str_def scan_token_def is_whitespace_def)

lemma tokenize_bool_close:
  "tokenize ((if v then str ''true'' else str ''false'') @ str ''}'') = Some [TValue (JBool v), TRBrace]"
  by (cases v) (simp_all add: str_def scan_token_def is_whitespace_def starts_with_def)

lemma literal_strings:
  "valid_str (str ''filename'')" "no_surrogate_pair (str ''filename'')"
  "valid_str (str ''item_type'')" "no_surrogate_pair (str ''item_type'')"
  "valid_str (str ''change_type'')" "no_surrogate_pair (str ''change_type'')"
  "valid_str (str ''user'')" "no_surrogate_pair (str ''user'')"
  "valid_str (str ''data_owner'')" "no_surrogate_pair (str ''data_owner'')"
  "valid_str (ChangeType_value ct)" "no_surrogate_pair (ChangeType_value ct)"
  by (cases ct; simp add: str_def valid_str_def is_high_surrogate_def)+

lemma loads_serialized:
  assumes "valid_str (filename b)" "no_surrogate_pair (filename b)"
      and "valid_str (item_type b)" "no_surrogate_pair (item_type b)"
      and "valid_str (user b)" "no_surrogate_pair (user b)"
      and "serialize b = Inr payload"
  shows "json_loads payload =
     Inr (JObject [(str ''filename'', JString (filename b)),
                   (str ''item_type'', JString (item_type b)),
                   (str ''change_type'', JString (ChangeType_value (change_type b))),
                   (str ''user'', JString (user b)),
                   (str ''data_owner'', JBool (data_owner b))])"
proof -
  from assms(7) have p: "payload = str ''{'' @
          encode_basestring_ascii (str ''filename'') @ str '': '' @
            encode_basestring_ascii (filename b) @ str '', '' @
          encode_basestring_ascii (str ''item_type'') @ str '': '' @
            encode_basestring_ascii (item_type b) @ str '', '' @
          encode_basestring_ascii (str ''change_type'') @ str '': '' @
            encode_basestring_ascii (ChangeType_value (change_type b)) @ str '', '' @
          encode_basestring_ascii (str ''user'') @ str '': '' @
            encode_basestring_ascii (user b) @ str '', '' @
          encode_basestring_ascii (str ''data_owner'') @ str '': '' @
            (if data_owner b then str ''true'' else str ''false'') @
          str ''}''"
    by (simp add: serialize_text)
  have t: "tokenize payload =
     Some [TLBrace,
           TString (str ''filename''), TColon, TString (filename b), TComma,
           TString (str ''item_type''), TColon, TString (item_type b), TComma,
           TString (str ''change_type''), TColon, TString (ChangeType_value (change_type b)), TComma,
           TString (str ''user''), TColon, TString (user b), TComma,
           TString (str ''data_owner''), TColon, TValue (JBool (data_owner b)), TRBrace]"
    unfolding p
    by (simp only: tokenize_punctuation tokenize_string literal_strings assms(1-6)
          tokenize_bool_close option.map)
  have "run_tokens (Value, [])
          [TLBrace,
           TString (str ''filename''), TColon, TString (filename b), TComma,
           TString (str ''item_type''), TColon, TString (item_type b), TComma,
           TString (str ''change_type''), TColon, TString (ChangeType_value (change_type b)), TComma,
           TString (str ''user''), TColon, TString (user b), TComma,
           TString (str ''data_owner''), TColon, TValue (JBool (data_owner b)), TRBrace] =
        Some (Finished (JObject [(str ''filename'', JString (filename b)),
                   (str ''item_type'', JString (item_type b)),
                   (str ''change_type'', JString (ChangeType_value (change_type b))),
                   (str ''user'', JString (user b)),
                   (str ''data_owner'', JBool (data_owner b))]), [])"
    by (simp add: key_literals(1-10) key_literals(1-10) [symmetric])
  with t show ?thesis by (simp add: json_loads_def)
qed

section \<open>The status resolver\<close>

text \<open>
  C1. The status resolver is a total mapping: the status is Pending exactly when the raw
  state is "open" (whatever the merge timestamp), Merged exactly when the state is not
  "open" and the merge timestamp is present, Rejected exactly when the state is not "open"
  and the merge timestamp is absent; of the three statuses exactly one applies.
\<close>

theorem from_pull_request_total:
  "(from_pull_request pr = pending) = (pr_state pr = str ''open'')
   \<and> (from_pull_request pr = merged) = (pr_state pr \<noteq> str ''open'' \<and> merged_at pr \<noteq> None)
   \<and> (from_pull_request pr = rejected) = (pr_state pr \<noteq> str ''open'' \<and> merged_at pr = None)
   \<and> length (filter (\<lambda>st. from_pull_request pr = st) [pending, merged, rejected]) = 1"
  by (simp add: from_pull_request_def)

section \<open>Branch allocation: the names\<close>

text \<open>
  C5. A call of the allocator with the default postfix asks the platform for
  \<open>refs/heads/base\<close> first and, after each name-taken failure, for the base name with the
  suffixes \<open>-2\<close>, \<open>-3\<close>, ... in turn: the creation attempt number \<open>k\<close> (counted from 0)
  uses the bare base name for \<open>k = 0\<close> and \<open>base-(k+1)\<close> otherwise, and the name returned is
  the one of the last attempt. With the branches "add-item" and "add-item-2" taken, the
  call returns "add-item-3" (the example below).
\<close>

theorem create_branch_names:
  assumes "create_branch P main base 1 s = (r, s')"
  shows "\<exists>n. requested_refs (new_events s s') =
            map (\<lambda>k. str ''refs/heads/'' @ base @ (if k = 0 then [] else str ''-'' @ str_int (int k + 1))) [0..<n]
         \<and> (\<forall>name. r = Inr name \<longrightarrow> 0 < n \<and> name = base @ (if n = 1 then [] else str ''-'' @ str_int (int n)))"
proof -
  from create_branch_allocation [OF assms] obtain evs where
    evs: "trace s' = trace s @ evs" "allocation main base 1 evs r" by blast
  from allocation_refs [OF evs(2)] obtain n where
    n: "requested_refs evs = map (\<lambda>k. str ''refs/heads/'' @ branch_name_of base (1 + int k)) [0..<n]"
       "\<forall>name. r = Inr name \<longrightarrow> 0 < n \<and> name = branch_name_of base (1 + int n - 1)" by blast
  have "map (\<lambda>k. str ''refs/heads/'' @ branch_name_of base (1 + int k)) [0..<n] =
        map (\<lambda>k. str ''refs/heads/'' @ base @ (if k = 0 then [] else str ''-'' @ str_int (int k + 1))) [0..<n]"
    by (rule map_cong) (simp_all add: branch_name_of_def add.commute)
  with n(1) new_events_append [OF evs(1)]
  have 1: "requested_refs (new_events s s') =
        map (\<lambda>k. str ''refs/heads/'' @ base @ (if k = 0 then [] else str ''-'' @ str_int (int k + 1))) [0..<n]"
    by simp
  have "branch_name_of base (1 + int n - 1) = base @ (if n = 1 then [] else str ''-'' @ str_int (int n))"
    by (simp add: branch_name_of_def)
  with n(2) have 2: "\<forall>name. r = Inr name \<longrightarrow> 0 < n \<and> name = base @ (if n = 1 then [] else str ''-'' @ str_int (int n))"
    by simp
  from 1 2 show ?thesis by blast
qed

theorem create_branch_names_witness:
  "(\<exists>n. requested_refs (new_events (session_of hub0)
          (snd (create_branch hub_platform (str ''main'') (str ''add-item'') 1 (session_of hub0)))) =
        map (\<lambda>k. str ''refs/heads/'' @ str ''add-item'' @
                  (if k = 0 then [] else str ''-'' @ str_int (int k + 1))) [0..<n]
      \<and> (\<forall>name. fst (create_branch hub_platform (str ''main'') (str ''add-item'') 1 (session_of hub0)) = Inr name
            \<longrightarrow> 0 < n \<and> name = str ''add-item'' @ (if n = 1 then [] else str ''-'' @ str_int (int n))))
   \<and> fst (create_branch hub_platform (str ''main'') (str ''add-item'') 1 (session_of hub0))
       = Inr (str ''add-item-3'')
   \<and> requested_refs (new_events (session_of hub0)
        (snd (create_branch hub_platform (str ''main'') (str ''add-item'') 1 (session_of hub0))))
       = [str ''refs/heads/add-item'', str ''refs/heads/add-item-2'', str ''refs/heads/add-item-3'']"
proof -
  let ?run = "create_branch hub_platform (str ''main'') (str ''add-item'') 1 (session_of hub0)"
  have r: "fst ?run = Inr (str ''add-item-3'')" by code_simp
  have refs: "requested_refs (new_events (session_of hub0) (snd ?run)) =
      [str ''refs/heads/add-item'', str ''refs/heads/add-item-2'', str ''refs/heads/add-item-3'']"
    by code_simp
  from create_branch_names [OF surjective_pairing [of ?run]] r refs show ?thesis
    by (intro conjI)
qed

section \<open>Branch allocation: giving up\<close>

text \<open>
  C6, as the code has it. The source has no exhaustion error of its own: the handler
  re-raises what it caught. A call with the default postfix makes at most 16 creation
  attempts; when all 16 fail, the call ends with the platform's own error of the sixteenth
  attempt, unchanged; and a creation failure that is not name-taken (not a
  \<^verbatim>\<open>GithubException\<close> of status 422) ends the call with that error, unchanged, at whichever
  attempt it happens.
\<close>

theorem create_branch_exhaustion:
  assumes "create_branch P main base 1 s = (r, s')"
  shows "length (requested_refs (new_events s s')) \<le> 16
       \<and> (length (creation_failures (new_events s s')) = 16 \<longrightarrow>
            r = Inl (Platform (last (creation_failures (new_events s s')))))
       \<and> (\<forall>e \<in> set (creation_failures (new_events s s')). \<not> name_taken e \<longrightarrow> r = Inl (Platform e))"
proof -
  from create_branch_allocation [OF assms] obtain evs where
    evs: "trace s' = trace s @ evs" "allocation main base 1 evs r" by blast
  have ne: "new_events s s' = evs" by (rule new_events_append [OF evs(1)])
  from allocation_bound [OF evs(2)] have 1: "length (requested_refs evs) \<le> 16" by simp
  from allocation_failures [OF evs(2)] have 2:
    "length (creation_failures evs) = 16 \<longrightarrow> r = Inl (Platform (last (creation_failures evs)))"
    and 3: "\<forall>e \<in> set (creation_failures evs). \<not> name_taken e \<longrightarrow> r = Inl (Platform e)"
    by auto
  from 1 2 3 show ?thesis unfolding ne by blast
qed

theorem create_branch_exhaustion_witness:
  "length (creation_failures (new_events (session_of hub_full)
      (snd (create_branch hub_platform (str ''main'') (str ''add-item'') 1 (session_of hub_full))))) = 16
   \<and> fst (create_branch hub_platform (str ''main'') (str ''add-item'') 1 (session_of hub_full))
     = Inl (Platform (last (creation_failures (new_events (session_of hub_full)
      (snd (create_branch hub_platform (str ''main'') (str ''add-item'') 1 (session_of hub_full)))))))"
proof -
  let ?run = "create_branch hub_platform (str ''main'') (str ''add-item'') 1 (session_of hub_full)"
  have l: "length (creation_failures (new_events (session_of hub_full) (snd ?run))) = 16"
    by code_simp
  with create_branch_exhaustion [OF surjective_pairing [of ?run]] show ?thesis by blast
qed

text \<open>
  With all sixteen names taken the call ends with the platform's error of status 422 itself,
  not with an error that names the exhaustion.
\<close>

theorem create_branch_exhaustion_counterexample:
  "fst (create_branch hub_platform (str ''main'') (str ''add-item'') 1 (session_of hub_full))
     = Inl (Platform (GithubException 422))"
  by code_simp

section \<open>Branch allocation: the tip of the main branch\<close>

text \<open>
  C10. Every creation attempt of the allocator, a retry as well, comes right after a fetch
  of the main branch in the same attempt and passes the commit that fetch answered; the
  branch that is created in the end is created at the commit fetched in the successful
  attempt. Where the main branch moves between two attempts (the example below), that
  commit is not the one the call saw first.
\<close>

theorem create_branch_fetches_tip:
  assumes "create_branch P main base p s = (r, s')"
  shows "(\<forall>i ref sh a. i < length (new_events s s') \<and> new_events s s' ! i = Called (CreateGitRef ref sh) a
            \<longrightarrow> 0 < i \<and> new_events s s' ! (i - 1) = Called (GetBranch main) (Inr (Sha sh)))
       \<and> (\<forall>name. r = Inr name \<longrightarrow>
            (\<exists>pre tip. new_events s s' =
                 pre @ [Called (GetBranch main) (Inr (Sha tip)),
                        Called (CreateGitRef (str ''refs/heads/'' @ name) tip) (Inr Done)]
               \<and> (\<forall>ev \<in> set pre. \<forall>c. ev \<noteq> Called c (Inr Done))))"
proof -
  from create_branch_allocation [OF assms] obtain evs where
    evs: "trace s' = trace s @ evs" "allocation main base p evs r" by blast
  have ne: "new_events s s' = evs" by (rule new_events_append [OF evs(1)])
  show ?thesis unfolding ne
    using allocation_preceded [OF evs(2)] allocation_created [of main base p evs] evs(2) by blast
qed

theorem create_branch_fetches_tip_witness:
  "(\<exists>pre tip. new_events (session_of advancing)
        (snd (create_branch scripted (str ''main'') (str ''add-item'') 1 (session_of advancing))) =
          pre @ [Called (GetBranch (str ''main'')) (Inr (Sha tip)),
                 Called (CreateGitRef (str ''refs/heads/'' @ str ''add-item-2'') tip) (Inr Done)])
   \<and> fst (create_branch scripted (str ''main'') (str ''add-item'') 1 (session_of advancing))
       = Inr (str ''add-item-2'')
   \<and> new_events (session_of advancing)
        (snd (create_branch scripted (str ''main'') (str ''add-item'') 1 (session_of advancing))) =
       [Called (GetBranch (str ''main'')) (Inr (Sha (str ''c1''))),
        Called (CreateGitRef (str ''refs/heads/add-item'') (str ''c1'')) (Inl (GithubException 422)),
        Called (GetBranch (str ''main'')) (Inr (Sha (str ''c2''))),
        Called (CreateGitRef (str ''refs/heads/add-item-2'') (str ''c2'')) (Inr Done)]
   \<and> str ''c1'' \<noteq> str ''c2''"
proof -
  let ?run = "create_branch scripted (str ''main'') (str ''add-item'') 1 (session_of advancing)"
  have r: "fst ?run = Inr (str ''add-item-2'')" by code_simp
  have evs: "new_events (session_of advancing) (snd ?run) =
       [Called (GetBranch (str ''main'')) (Inr (Sha (str ''c1''))),
        Called (CreateGitRef (str ''refs/heads/add-item'') (str ''c1'')) (Inl (GithubException 422)),
        Called (GetBranch (str ''main'')) (Inr (Sha (str ''c2''))),
        Called (CreateGitRef (str ''refs/heads/add-item-2'') (str ''c2'')) (Inr Done)]"
    by code_simp
  have d: "str ''c1'' \<noteq> str ''c2''" by code_simp
  from create_branch_fetches_tip [OF surjective_pairing [of ?run]] r
  have "\<exists>pre tip. new_events (session_of advancing) (snd ?run) =
          pre @ [Called (GetBranch (str ''main'')) (Inr (Sha tip)),
                 Called (CreateGitRef (str ''refs/heads/'' @ str ''add-item-2'') tip) (Inr Done)]"
    by blast
  with r evs d show ?thesis by (intro conjI)
qed

section \<open>The content locator: the token\<close>

text \<open>
  C7, as the code has it. Take a path whose parent directory (as \<^verbatim>\<open>main:parent\<close>) can be
  encoded for the tree request, and let the platform answer that request either with
  not-found or with a listing whose entries carry non-empty tokens. Then the locator returns
  a token; the token is empty exactly when the answer is not-found or the listing has no
  entry whose path equals the final segment of the path; otherwise it is the token of such an
  entry (the first), and it is not empty. The example is the spec's: "alice/foo.json" with
  no "alice" directory on main gives the empty token, and with "alice/foo.json" on main its
  token.
\<close>

theorem previous_version_sha_absent_iff:
  assumes enc: "quote_plus (main @ str '':'' @ path_str (path_parent (pure_path_of pth))) = Some ref"
      and ans: "fst (get_git_tree P (world s) ref) = a"
      and ok: "a = Inl UnknownObjectException \<or> (\<exists>tree. a = Inr tree \<and> (\<forall>el \<in> set tree. elem_sha el \<noteq> []))"
  shows "\<exists>tok. fst (previous_version_sha P main pth s) = Inr tok
      \<and> (tok = [] \<longleftrightarrow>
           (a = Inl UnknownObjectException
            \<or> (\<exists>tree. a = Inr tree \<and> path_name (pure_path_of pth) \<notin> elem_path ` set tree)))
      \<and> (\<forall>tree. a = Inr tree \<and> path_name (pure_path_of pth) \<in> elem_path ` set tree \<longrightarrow>
            tok \<noteq> [] \<and> (\<exists>el \<in> set tree. elem_path el = path_name (pure_path_of pth) \<and> elem_sha el = tok))"
proof -
  let ?nm = "path_name (pure_path_of pth)"
  have run: "fst (previous_version_sha P main pth s) =
      (case a of Inl UnknownObjectException \<Rightarrow> Inr [] | Inl e \<Rightarrow> Inl (Platform e)
       | Inr tree \<Rightarrow> Inr (next_sha tree ?nm))"
    using enc ans
    by (cases "get_git_tree P (world s) ref")
       (auto simp: previous_version_sha_def Let_def call_get_git_tree_def answered_def
             split: sum.splits platform_error.splits)
  have sha: "next_sha tree ?nm = [] \<longleftrightarrow> ?nm \<notin> elem_path ` set tree"
    if "\<forall>el \<in> set tree. elem_sha el \<noteq> []" for tree
  proof (cases "filter (\<lambda>tree_elem. elem_path tree_elem = ?nm) tree")
    case Nil
    then have "?nm \<notin> elem_path ` set tree" by (auto simp: filter_empty_conv)
    with Nil show ?thesis by (simp add: next_sha_def)
  next
    case (Cons el rest)
    then have "el \<in> set (filter (\<lambda>tree_elem. elem_path tree_elem = ?nm) tree)" by simp
    then have el: "el \<in> set tree" "elem_path el = ?nm" by auto
    then have "?nm \<in> elem_path ` set tree" by (metis imageI)
    with that el Cons show ?thesis by (simp add: next_sha_def)
  qed
  have found: "\<exists>el \<in> set tree. elem_path el = ?nm \<and> elem_sha el = next_sha tree ?nm"
    if "?nm \<in> elem_path ` set tree" for tree
  proof (cases "filter (\<lambda>tree_elem. elem_path tree_elem = ?nm) tree")
    case Nil
    with that show ?thesis by (auto simp: filter_empty_conv)
  next
    case (Cons el rest)
    then have "el \<in> set (filter (\<lambda>tree_elem. elem_path tree_elem = ?nm) tree)" by simp
    then have "el \<in> set tree" "elem_path el = ?nm" by auto
    with Cons show ?thesis by (auto simp: next_sha_def)
  qed
  from ok show ?thesis
  proof
    assume "a = Inl UnknownObjectException"
    with run show ?thesis by simp
  next
    assume "\<exists>tree. a = Inr tree \<and> (\<forall>el \<in> set tree. elem_sha el \<noteq> [])"
    then obtain tree where tr: "a = Inr tree" "\<forall>el \<in> set tree. elem_sha el \<noteq> []" by blast
    from run tr have "fst (previous_version_sha P main pth s) = Inr (next_sha tree ?nm)" by simp
    moreover from sha [OF tr(2)] tr(1)
    have "next_sha tree ?nm = [] \<longleftrightarrow>
           (a = Inl UnknownObjectException
            \<or> (\<exists>tree. a = Inr tree \<and> ?nm \<notin> elem_path ` set tree))" by simp
    moreover from found sha [OF tr(2)] tr(1)
    have "\<forall>tree'. a = Inr tree' \<and> ?nm \<in> elem_path ` set tree' \<longrightarrow>
            next_sha tree ?nm \<noteq> [] \<and> (\<exists>el \<in> set tree'. elem_path el = ?nm \<and> elem_sha el = next_sha tree ?nm)"
      by auto
    ultimately show ?thesis by blast
  qed
qed

theorem previous_version_sha_absent_iff_witness:
  "(\<exists>tok. fst (previous_version_sha hub_platform (str ''main'') (str ''alice/foo.json'') (session_of hub_alice)) = Inr tok
       \<and> tok \<noteq> [])
   \<and> fst (previous_version_sha hub_platform (str ''main'') (str ''alice/foo.json'') (session_of hub_alice))
       = Inr (str ''3b18e5'')
   \<and> fst (previous_version_sha hub_platform (str ''main'') (str ''alice/foo.json'') (session_of hub_main))
       = Inr []"
proof -
  have enc: "quote_plus (str ''main'' @ str '':'' @ path_str (path_parent (pure_path_of (str ''alice/foo.json''))))
      = Some (str ''main%3Aalice'')" by code_simp
  have ans: "fst (get_git_tree hub_platform (world (session_of hub_alice)) (str ''main%3Aalice'')) =
      Inr [\<lparr>elem_path = str ''bar.json'', elem_sha = str ''77aa01''\<rparr>,
           \<lparr>elem_path = str ''foo.json'', elem_sha = str ''3b18e5''\<rparr>]" by code_simp
  have nm: "path_name (pure_path_of (str ''alice/foo.json'')) = str ''foo.json''" by code_simp
  have ne: "str ''77aa01'' \<noteq> []" "str ''3b18e5'' \<noteq> []" by (simp_all add: str_def)
  from previous_version_sha_absent_iff [OF enc ans] ne nm
  have "\<exists>tok. fst (previous_version_sha hub_platform (str ''main'') (str ''alice/foo.json'') (session_of hub_alice)) = Inr tok
       \<and> tok \<noteq> []"
    by auto
  moreover have "fst (previous_version_sha hub_platform (str ''main'') (str ''alice/foo.json'') (session_of hub_alice))
       = Inr (str ''3b18e5'')" by code_simp
  moreover have "fst (previous_version_sha hub_platform (str ''main'') (str ''alice/foo.json'') (session_of hub_main))
       = Inr []" by code_simp
  ultimately show ?thesis by (intro conjI)
qed

text \<open>
  The claim speaks of every path. A parent directory with a surrogate code point cannot be
  encoded: the locator raises \<^verbatim>\<open>UnicodeEncodeError\<close> before it asks the platform, and returns
  no token at all.
\<close>

theorem previous_version_sha_absent_iff_counterexample:
  "previous_version_sha hub_platform (str ''main'') ([0xD800] @ str ''/foo.json'') (session_of hub_main)
     = (Inl UnicodeEncodeError, session_of hub_main)"
  by code_simp

section \<open>The orchestrator: its effects\<close>

text \<open>
  C8, as the code has it. A successful call of the orchestrator creates exactly one branch,
  writes exactly one file when \<^verbatim>\<open>file_to_create\<close> is set and none otherwise, deletes exactly
  one file when \<^verbatim>\<open>file_to_delete\<close> is set to a non-empty path and none otherwise (the source
  tests the truth value of the string), opens exactly one pull request, and sets the labels
  once when there is a label and not at all otherwise. The write passes the token the locator
  made of the tree request just before it, and the label call comes right after the creation
  of the pull request, for the pull request it answered. The example is the spec's: a new
  item at "bob/x.json", no "bob" directory, written with the empty token.
\<close>

theorem create_pull_request_effects:
  assumes "create_pull_request P main base title pr_body fc fd labels s = (Inr u, s')"
  shows "length (created_branches (new_events s s')) = 1
       \<and> length (file_writes (new_events s s')) = (if fc = None then 0 else 1)
       \<and> length (file_deletes (new_events s s')) = (if fd = None \<or> fd = Some [] then 0 else 1)
       \<and> length (pulls_opened (new_events s s')) = 1
       \<and> length (label_calls (new_events s s')) = (if labels = [] then 0 else 1)
       \<and> (\<forall>pth content. fc = Some (pth, content) \<longrightarrow>
            (\<exists>pre ref a msg bn post.
               new_events s s' =
                 pre @ [Called (GetGitTree ref) a,
                        Called (UpdateFile pth msg content (token_of a pth) bn) (Inr Done)] @ post
               \<and> looked_up main pth ref a))
       \<and> (labels \<noteq> [] \<longrightarrow>
            (\<exists>pre bn n. new_events s s' =
               pre @ [Called (CreatePull title pr_body bn main True) (Inr (Pull n)),
                      Called (SetLabels n labels) (Inr Done)]))"
proof -
  from create_pull_request_events [OF assms] obtain A bn W D n L where
    ev: "new_events s s' =
        Called GetRepo (Inr Done) # A @ W @ D @
        Called (CreatePull title pr_body bn main True) (Inr (Pull n)) # L"
    and A: "allocation main base 1 A (Inr bn)"
    and W: "(case fc of
          None \<Rightarrow> W = []
        | Some (pth, content) \<Rightarrow>
            (\<exists>ref a. W = [Called (GetGitTree ref) a,
                           Called (UpdateFile pth (str ''Add '' @ pth @ str '' for pull request submission'')
                                     content (token_of a pth) bn) (Inr Done)]
                    \<and> looked_up main pth ref a))"
    and D: "(if fd = None \<or> fd = Some [] then D = []
        else (\<exists>ref a. D = [Called (GetGitTree ref) a,
                            Called (DeleteFile (the fd)
                                      (str ''Delete '' @ the fd @ str '' for pull request submission'')
                                      (token_of a (the fd)) bn) (Inr Done)]
                     \<and> looked_up main (the fd) ref a))"
    and L: "L = (if labels = [] then [] else [Called (SetLabels n labels) (Inr Done)])"
    by blast
  note Ae = allocation_effects [OF A]
  have Wn: "created_branches W = [] \<and> file_deletes W = [] \<and> pulls_opened W = [] \<and> label_calls W = []
      \<and> length (file_writes W) = (if fc = None then 0 else 1)"
    using W by (cases fc) auto
  have Dn: "created_branches D = [] \<and> file_writes D = [] \<and> pulls_opened D = [] \<and> label_calls D = []
      \<and> length (file_deletes D) = (if fd = None \<or> fd = Some [] then 0 else 1)"
    using D by (cases "fd = None \<or> fd = Some []") auto
  have Ln: "created_branches L = [] \<and> file_writes L = [] \<and> file_deletes L = [] \<and> pulls_opened L = []
      \<and> length (label_calls L) = (if labels = [] then 0 else 1)"
    using L by simp
  have 1: "length (created_branches (new_events s s')) = 1"
    and 2: "length (file_writes (new_events s s')) = (if fc = None then 0 else 1)"
    and 3: "length (file_deletes (new_events s s')) = (if fd = None \<or> fd = Some [] then 0 else 1)"
    and 4: "length (pulls_opened (new_events s s')) = 1"
    and 5: "length (label_calls (new_events s s')) = (if labels = [] then 0 else 1)"
    unfolding ev using Ae Wn Dn Ln by simp_all
  have 6: "\<exists>pre ref a msg bn post.
               new_events s s' =
                 pre @ [Called (GetGitTree ref) a,
                        Called (UpdateFile pth msg content (token_of a pth) bn) (Inr Done)] @ post
               \<and> looked_up main pth ref a" if "fc = Some (pth, content)" for pth content
  proof -
    from W that obtain ref a where
      "W = [Called (GetGitTree ref) a,
            Called (UpdateFile pth (str ''Add '' @ pth @ str '' for pull request submission'')
                      content (token_of a pth) bn) (Inr Done)]" "looked_up main pth ref a"
      by auto
    with ev have "new_events s s' = (Called GetRepo (Inr Done) # A) @
       [Called (GetGitTree ref) a,
            Called (UpdateFile pth (str ''Add '' @ pth @ str '' for pull request submission'')
                      content (token_of a pth) bn) (Inr Done)] @
       (D @ Called (CreatePull title pr_body bn main True) (Inr (Pull n)) # L)" by simp
    with \<open>looked_up main pth ref a\<close> show ?thesis by blast
  qed
  have 7: "\<exists>pre bn n. new_events s s' =
               pre @ [Called (CreatePull title pr_body bn main True) (Inr (Pull n)),
                      Called (SetLabels n labels) (Inr Done)]" if "labels \<noteq> []"
  proof -
    from ev L that have "new_events s s' = (Called GetRepo (Inr Done) # A @ W @ D) @
        [Called (CreatePull title pr_body bn main True) (Inr (Pull n)),
         Called (SetLabels n labels) (Inr Done)]" by simp
    then show ?thesis by blast
  qed
  from 1 2 3 4 5 6 7 show ?thesis by blast
qed

theorem create_pull_request_effects_witness:
  "fst (create_pull_request hub_platform (str ''main'') (str ''bob-x-json'') (str ''Add bob/x.json'')
          (str ''{}'') (Some (str ''bob/x.json'', str ''{}'')) None [] (session_of hub_main)) = Inr ()
   \<and> length (created_branches (new_events (session_of hub_main)
        (snd (create_pull_request hub_platform (str ''main'') (str ''bob-x-json'') (str ''Add bob/x.json'')
          (str ''{}'') (Some (str ''bob/x.json'', str ''{}'')) None [] (session_of hub_main))))) = 1
   \<and> length (file_writes (new_events (session_of hub_main)
        (snd (create_pull_request hub_platform (str ''main'') (str ''bob-x-json'') (str ''Add bob/x.json'')
          (str ''{}'') (Some (str ''bob/x.json'', str ''{}'')) None [] (session_of hub_main))))) = 1
   \<and> length (file_deletes (new_events (session_of hub_main)
        (snd (create_pull_request hub_platform (str ''main'') (str ''bob-x-json'') (str ''Add bob/x.json'')
          (str ''{}'') (Some (str ''bob/x.json'', str ''{}'')) None [] (session_of hub_main))))) = 0
   \<and> length (pulls_opened (new_events (session_of hub_main)
        (snd (create_pull_request hub_platform (str ''main'') (str ''bob-x-json'') (str ''Add bob/x.json'')
          (str ''{}'') (Some (str ''bob/x.json'', str ''{}'')) None [] (session_of hub_main))))) = 1
   \<and> new_events (session_of hub_main)
        (snd (create_pull_request hub_platform (str ''main'') (str ''bob-x-json'') (str ''Add bob/x.json'')
          (str ''{}'') (Some (str ''bob/x.json'', str ''{}'')) None [] (session_of hub_main))) =
       [Called GetRepo (Inr Done),
        Called (GetBranch (str ''main'')) (Inr (Sha (str ''c0''))),
        Called (CreateGitRef (str ''refs/heads/bob-x-json'') (str ''c0'')) (Inr Done),
        Called (GetGitTree (str ''main%3Abob'')) (Inl UnknownObjectException),
        Called (UpdateFile (str ''bob/x.json'') (str ''Add bob/x.json for pull request submission'')
                  (str ''{}'') [] (str ''bob-x-json'')) (Inr Done),
        Called (CreatePull (str ''Add bob/x.json'') (str ''{}'') (str ''bob-x-json'') (str ''main'') True)
          (Inr (Pull 1))]"
proof -
  let ?run = "create_pull_request hub_platform (str ''main'') (str ''bob-x-json'') (str ''Add bob/x.json'')
          (str ''{}'') (Some (str ''bob/x.json'', str ''{}'')) None [] (session_of hub_main)"
  have r: "fst ?run = Inr ()" by code_simp
  then have run: "?run = (Inr (), snd ?run)" by (simp add: prod_eq_iff)
  have evs: "new_events (session_of hub_main) (snd ?run) =
       [Called GetRepo (Inr Done),
        Called (GetBranch (str ''main'')) (Inr (Sha (str ''c0''))),
        Called (CreateGitRef (str ''refs/heads/bob-x-json'') (str ''c0'')) (Inr Done),
        Called (GetGitTree (str ''main%3Abob'')) (Inl UnknownObjectException),
        Called (UpdateFile (str ''bob/x.json'') (str ''Add bob/x.json for pull request submission'')
                  (str ''{}'') [] (str ''bob-x-json'')) (Inr Done),
        Called (CreatePull (str ''Add bob/x.json'') (str ''{}'') (str ''bob-x-json'') (str ''main'') True)
          (Inr (Pull 1))]" by code_simp
  from create_pull_request_effects [OF run] r evs show ?thesis by simp
qed

text \<open>
  With \<^verbatim>\<open>file_to_delete\<close> set to the empty string the call succeeds and deletes nothing.
\<close>

theorem create_pull_request_effects_counterexample:
  "fst (create_pull_request hub_platform (str ''main'') (str ''withdraw'') (str ''Delete'')
          (str ''{}'') None (Some []) [] (session_of hub_main)) = Inr ()
   \<and> file_deletes (new_events (session_of hub_main)
        (snd (create_pull_request hub_platform (str ''main'') (str ''withdraw'') (str ''Delete'')
          (str ''{}'') None (Some []) [] (session_of hub_main)))) = []"
  by code_simp

text \<open>
  The orchestrator does not look at which of the two file arguments are set: with neither,
  with both, and with the deletion alone the call goes through on a platform that accepts
  every request; with neither, the pull request is opened from a branch without a commit.
\<close>

lemma create_pull_request_accepts:
  "fst (create_pull_request hub_platform (str ''main'') (str ''b'') (str ''t'') (str ''{}'')
          None None [] (session_of hub_main)) = Inr ()
   \<and> fst (create_pull_request hub_platform (str ''main'') (str ''b'') (str ''t'') (str ''{}'')
          (Some (str ''u/x.json'', str ''{}'')) (Some (str ''u/y.json'')) [str ''l''] (session_of hub_main)) = Inr ()
   \<and> fst (create_pull_request hub_platform (str ''main'') (str ''b'') (str ''t'') (str ''{}'')
          None (Some (str ''u/y.json'')) [] (session_of hub_main)) = Inr ()
   \<and> new_events (session_of hub_main)
        (snd (create_pull_request hub_platform (str ''main'') (str ''b'') (str ''t'') (str ''{}'')
          None None [] (session_of hub_main))) =
       [Called GetRepo (Inr Done),
        Called (GetBranch (str ''main'')) (Inr (Sha (str ''c0''))),
        Called (CreateGitRef (str ''refs/heads/b'') (str ''c0'')) (Inr Done),
        Called (CreatePull (str ''t'') (str ''{}'') (str ''b'') (str ''main'') True) (Inr (Pull 1))]"
  by code_simp

section \<open>Serialization embeds the change only\<close>

text \<open>
  C4. The dict that \<^verbatim>\<open>serialize\<close> gives to \<^verbatim>\<open>json.dumps\<close> has exactly the keys filename,
  item_type, change_type, user and data_owner; the text is the JSON object of these five
  members and nothing else; and the text does not depend on url, created_at or state: a
  descriptor with other values there serializes to the same string.
\<close>

theorem serialize_embedded_only:
  "map fst (filter (\<lambda>(k, v). k \<notin> set [str ''url'', str ''created_at'', str ''state''])
              (asdict b)) = embedded_keys
   \<and> serialize b =
     Inr (str ''{'' @
          encode_basestring_ascii (str ''filename'') @ str '': '' @
            encode_basestring_ascii (filename b) @ str '', '' @
          encode_basestring_ascii (str ''item_type'') @ str '': '' @
            encode_basestring_ascii (item_type b) @ str '', '' @
          encode_basestring_ascii (str ''change_type'') @ str '': '' @
            encode_basestring_ascii (ChangeType_value (change_type b)) @ str '', '' @
          encode_basestring_ascii (str ''user'') @ str '': '' @
            encode_basestring_ascii (user b) @ str '', '' @
          encode_basestring_ascii (str ''data_owner'') @ str '': '' @
            (if data_owner b then str ''true'' else str ''false'') @
          str ''}'')
   \<and> serialize (b\<lparr>url := u, created_at := c, state := st\<rparr>) = serialize b"
proof -
  have "map fst (filter (\<lambda>(k, v). k \<notin> set [str ''url'', str ''created_at'', str ''state''])
              (asdict b)) = embedded_keys"
    unfolding embedded_filter by (simp add: embedded_keys_def)
  moreover have "serialize (b\<lparr>url := u, created_at := c, state := st\<rparr>) = serialize b"
    by (simp add: serialize_text)
  ultimately show ?thesis using serialize_text [of b] by blast
qed

section \<open>Decoding: when it raises\<close>




section \<open>The lister skips what it cannot decode\<close>



section \<open>The round trip\<close>

text \<open>
  C2, as the code has it. Take a descriptor whose filename, item_type and user are strings
  of code points in which no high surrogate stands right before a low surrogate (every
  string without surrogates is one), with any change type and any data_owner. Then
  \<^verbatim>\<open>serialize\<close> returns a string, and \<^verbatim>\<open>deserialize\<close> of that string, with any url, state and
  created_at, returns a descriptor with the same filename, item_type, user and data_owner,
  and with the value of the change type as a plain string, which Python's \<^verbatim>\<open>==\<close> takes for
  equal to the member (\<^verbatim>\<open>ChangeType\<close> is a \<^verbatim>\<open>str\<close>); its url, state and created_at are the
  ones given.
\<close>

theorem serialize_deserialize_roundtrip:
  assumes "valid_str (filename b)" "no_surrogate_pair (filename b)"
      and "valid_str (item_type b)" "no_surrogate_pair (item_type b)"
      and "valid_str (user b)" "no_surrogate_pair (user b)"
  shows "\<exists>payload. serialize b = Inr payload
         \<and> deserialize (Some payload) u st c =
             Inr \<lparr>filename = JString (filename b), item_type = JString (item_type b),
                  change_type = JString (ChangeType_value (change_type b)), state = st,
                  url = Some u, created_at = Some c, user = JString (user b),
                  data_owner = JBool (data_owner b)\<rparr>"
proof -
  from serialize_text [of b] obtain payload where p: "serialize b = Inr payload" by blast
  note l = loads_serialized [OF assms p]
  have "new_PullRequestBody
          [(str ''filename'', JString (filename b)),
           (str ''item_type'', JString (item_type b)),
           (str ''change_type'', JString (ChangeType_value (change_type b))),
           (str ''user'', JString (user b)),
           (str ''data_owner'', JBool (data_owner b))] u st c =
        Inr \<lparr>filename = JString (filename b), item_type = JString (item_type b),
             change_type = JString (ChangeType_value (change_type b)), state = st,
             url = Some u, created_at = Some c, user = JString (user b),
             data_owner = JBool (data_owner b)\<rparr>"
    by (simp add: new_PullRequestBody_def str_def)
  with l have "deserialize (Some payload) u st c =
             Inr \<lparr>filename = JString (filename b), item_type = JString (item_type b),
                  change_type = JString (ChangeType_value (change_type b)), state = st,
                  url = Some u, created_at = Some c, user = JString (user b),
                  data_owner = JBool (data_owner b)\<rparr>"
    by (simp add: deserialize_def loads_and_construct_def)
  with p show ?thesis by blast
qed

theorem serialize_deserialize_roundtrip_witness:
  "(\<exists>payload. serialize bob_descriptor = Inr payload
      \<and> deserialize (Some payload) (str ''https://hub/pull/1'') merged 10 =
          Inr \<lparr>filename = JString (str ''bob/x.json''), item_type = JString (str ''product''),
               change_type = JString (str ''Add''), state = merged,
               url = Some (str ''https://hub/pull/1''), created_at = Some 10,
               user = JString (str ''bob''), data_owner = JBool False\<rparr>)"
proof -
  have h: "valid_str (filename bob_descriptor)" "no_surrogate_pair (filename bob_descriptor)"
    "valid_str (item_type bob_descriptor)" "no_surrogate_pair (item_type bob_descriptor)"
    "valid_str (user bob_descriptor)" "no_surrogate_pair (user bob_descriptor)"
    by code_simp+
  have f: "filename bob_descriptor = str ''bob/x.json''" "item_type bob_descriptor = str ''product''"
    "ChangeType_value (change_type bob_descriptor) = str ''Add''" "user bob_descriptor = str ''bob''"
    "data_owner bob_descriptor = False"
    by (simp_all add: bob_descriptor_def)
  from serialize_deserialize_roundtrip [OF h, of "str ''https://hub/pull/1''" merged 10]
  show ?thesis unfolding f .
qed

text \<open>
  The claim speaks of arbitrary strings. \<^verbatim>\<open>json.dumps\<close> writes a lone surrogate as its own
  escape, and \<^verbatim>\<open>json.loads\<close> joins a high surrogate escape with a low one that follows it:
  the filename of two code points \<open>0xD83D\<close>, \<open>0xDE00\<close> comes back as the one code point
  \<open>0x1F600\<close>.
\<close>

theorem serialize_deserialize_roundtrip_counterexample:
  "\<not> isl (serialize surrogate_descriptor)
   \<and> map_sum id filename
       (deserialize (Some (projr (serialize surrogate_descriptor))) (str ''https://hub/pull/1'') merged 10)
     = Inr (JString [0x1F600])
   \<and> filename surrogate_descriptor = [0xD83D, 0xDE00]"
  by code_simp

end
